theory Spec2Isabelle
  imports Complex_Main "HOL-Library.Sublist"
begin

section \<open>Python values, exceptions and strings\<close>

text \<open>
  The pipeline moves untyped Python values around: the dictionary an LLM answer is
  decoded into, the body of an HTTP response, the YAML configuration. They are modelled
  by one datatype. A dictionary is an association list read with \<open>map_of\<close> (keys are
  strings, as in JSON and YAML). A finite Python \<open>float\<close> is modelled by the rational
  number it denotes; float arithmetic rounds as IEEE 754 does (see below). A string is a
  list of 8-bit characters, read as the code points below 256.
\<close>

datatype pyval =
    PNone
  | PBool bool
  | PInt int
  | PFloat rat
  | PStr string
  | PList "pyval list"
  | PDict "(string \<times> pyval) list"

text \<open>A raised exception: its class name and its message (\<open>str(e)\<close>).\<close>

datatype exn = Exn (exn_class: string) (exn_str: string)

fun type_name :: "pyval \<Rightarrow> string" where
  "type_name PNone = ''NoneType''"
| "type_name (PBool _) = ''bool''"
| "type_name (PInt _) = ''int''"
| "type_name (PFloat _) = ''float''"
| "type_name (PStr _) = ''str''"
| "type_name (PList _) = ''list''"
| "type_name (PDict _) = ''dict''"

text \<open>Truth value of a Python object, as \<open>if x:\<close> tests it.\<close>

fun truthy :: "pyval \<Rightarrow> bool" where
  "truthy PNone = False"
| "truthy (PBool b) = b"
| "truthy (PInt i) = (i \<noteq> 0)"
| "truthy (PFloat f) = (f \<noteq> 0)"
| "truthy (PStr s) = (s \<noteq> [])"
| "truthy (PList xs) = (xs \<noteq> [])"
| "truthy (PDict kvs) = (kvs \<noteq> [])"

text \<open>Sequencing of steps that may raise: the first exception wins.\<close>

definition and_then :: "exn + 'a \<Rightarrow> ('a \<Rightarrow> exn + 'b) \<Rightarrow> exn + 'b" where
  "and_then r f = (case r of Inl e \<Rightarrow> Inl e | Inr x \<Rightarrow> f x)"

text \<open>\<open>kw in s\<close> on strings: \<open>kw\<close> occurs in \<open>s\<close> as a contiguous substring.\<close>

fun str_contains :: "string \<Rightarrow> string \<Rightarrow> bool" where
  "str_contains kw [] = (kw = [])"
| "str_contains kw (c # cs) = (prefix kw (c # cs) \<or> str_contains kw cs)"

text \<open>\<open>d.get(k, default)\<close>: only a dictionary has the method.\<close>

definition quoted :: "string \<Rightarrow> string" where
  "quoted s = [CHR 0x27] @ s @ [CHR 0x27]"

definition no_attribute :: "pyval \<Rightarrow> string \<Rightarrow> exn" where
  "no_attribute v a =
     Exn ''AttributeError'' (quoted (type_name v) @ '' object has no attribute '' @ quoted a)"

fun py_get :: "pyval \<Rightarrow> string \<Rightarrow> pyval \<Rightarrow> exn + pyval" where
  "py_get (PDict kvs) k d = Inr (case map_of kvs k of Some v \<Rightarrow> v | None \<Rightarrow> d)"
| "py_get v k d = Inl (no_attribute v ''get'')"

text \<open>\<open>k in v\<close> for a string key \<open>k\<close>: key of a dictionary, element of a list,
  substring of a string; anything else is not iterable.\<close>

fun py_in :: "string \<Rightarrow> pyval \<Rightarrow> exn + bool" where
  "py_in k (PDict kvs) = Inr (map_of kvs k \<noteq> None)"
| "py_in k (PList xs) = Inr (List.member xs (PStr k))"
| "py_in k (PStr s) = Inr (str_contains k s)"
| "py_in k v = Inl (Exn ''TypeError'' (''argument of type '' @ quoted (type_name v) @ '' is not iterable''))"

text \<open>\<open>v[k]\<close> for a string key \<open>k\<close>.\<close>

fun py_getitem :: "pyval \<Rightarrow> string \<Rightarrow> exn + pyval" where
  "py_getitem (PDict kvs) k =
     (case map_of kvs k of Some v \<Rightarrow> Inr v | None \<Rightarrow> Inl (Exn ''KeyError'' (quoted k)))"
| "py_getitem (PList xs) k = Inl (Exn ''TypeError'' ''list indices must be integers or slices, not str'')"
| "py_getitem (PStr s) k = Inl (Exn ''TypeError'' (''string indices must be integers, not '' @ quoted ''str''))"
| "py_getitem v k = Inl (Exn ''TypeError'' (quoted (type_name v) @ '' object is not subscriptable''))"

text \<open>\<open>v[0]\<close>.\<close>

fun py_first :: "pyval \<Rightarrow> exn + pyval" where
  "py_first (PList []) = Inl (Exn ''IndexError'' ''list index out of range'')"
| "py_first (PList (x # xs)) = Inr x"
| "py_first (PStr []) = Inl (Exn ''IndexError'' ''string index out of range'')"
| "py_first (PStr (c # cs)) = Inr (PStr [c])"
| "py_first (PDict kvs) = Inl (Exn ''KeyError'' ''0'')"
| "py_first v = Inl (Exn ''TypeError'' (quoted (type_name v) @ '' object is not subscriptable''))"

text \<open>\<open>len(v)\<close>.\<close>

fun py_len :: "pyval \<Rightarrow> exn + nat" where
  "py_len (PStr s) = Inr (length s)"
| "py_len (PList xs) = Inr (length xs)"
| "py_len (PDict kvs) = Inr (length kvs)"
| "py_len v = Inl (Exn ''TypeError'' (''object of type '' @ quoted (type_name v) @ '' has no len()''))"

text \<open>Decimal rendering of an integer, as an f-string prints it.\<close>

fun digits :: "nat \<Rightarrow> string" where
  "digits n = (if n < 10 then [''0123456789'' ! n]
               else digits (n div 10) @ [''0123456789'' ! (n mod 10)])"

definition str_int :: "int \<Rightarrow> string" where
  "str_int i = (if i < 0 then CHR ''-'' # digits (nat (- i)) else digits (nat i))"

text \<open>\<open>str(x)\<close> of an optional string, as an f-string prints it.\<close>

definition str_opt :: "string option \<Rightarrow> string" where
  "str_opt m = (case m of None \<Rightarrow> ''None'' | Some s \<Rightarrow> s)"

text \<open>\<open>s.lower()\<close> and \<open>s.strip()\<close> on code points below 256.\<close>

definition lower_char :: "char \<Rightarrow> char" where
  "lower_char c = (let n = (of_char c :: nat) in
     if (65 \<le> n \<and> n \<le> 90) \<or> (192 \<le> n \<and> n \<le> 222 \<and> n \<noteq> 215)
     then char_of (n + 32) else c)"

definition lower :: "string \<Rightarrow> string" where
  "lower s = map lower_char s"

definition is_space :: "char \<Rightarrow> bool" where
  "is_space c = (let n = (of_char c :: nat) in
     (9 \<le> n \<and> n \<le> 13) \<or> (28 \<le> n \<and> n \<le> 32) \<or> n = 133 \<or> n = 160)"

definition strip :: "string \<Rightarrow> string" where
  "strip s = rev (dropWhile is_space (rev (dropWhile is_space s)))"


subsection \<open>Float arithmetic\<close>

text \<open>
  A \<open>float\<close> is an IEEE 754 double: 53 significant bits, exponents from -1022 (below
  which the spacing stays \<open>2 ^ -1074\<close>) up. \<open>to_double x\<close> is the double nearest to the
  rational \<open>x\<close>, ties going to the even significand; a float literal, a sum and a
  quotient are the exact result rounded this way. Overflow to infinity is not modelled:
  the floats of this program are sums and quotients of weights between 0 and 1.
\<close>

text \<open>The number of binary digits of a positive integer.\<close>

function bit_length :: "int \<Rightarrow> int" where
  "bit_length n = (if n \<le> 0 then 0 else 1 + bit_length (n div 2))"
  by pat_completeness auto
termination
  by (relation "measure nat") auto

definition pow2 :: "int \<Rightarrow> rat" where
  "pow2 e = (if 0 \<le> e then 2 ^ nat e else 1 / 2 ^ nat (- e))"

text \<open>For \<open>x > 0\<close>: the \<open>e\<close> with \<open>2 ^ e \<le> x < 2 ^ (e + 1)\<close>.\<close>

definition float_exponent :: "rat \<Rightarrow> int" where
  "float_exponent x =
     (case quotient_of x of (p, q) \<Rightarrow>
        (let e0 = bit_length p - bit_length q
         in if pow2 e0 \<le> x then e0 else e0 - 1))"

definition round_half_even :: "rat \<Rightarrow> int" where
  "round_half_even x =
     (let f = \<lfloor>x\<rfloor>; d = x - of_int f
      in if d < 1 / 2 then f else if 1 / 2 < d then f + 1 else if even f then f else f + 1)"

definition to_double :: "rat \<Rightarrow> rat" where
  "to_double x =
     (if x = 0 then 0
      else (let e = max (float_exponent \<bar>x\<bar>) (- 1022);
                quantum = pow2 (e - 52)
            in of_int (round_half_even (x / quantum)) * quantum))"

definition float_add :: "rat \<Rightarrow> rat \<Rightarrow> rat" where
  "float_add a b = to_double (a + b)"

definition float_div :: "rat \<Rightarrow> rat \<Rightarrow> rat" where
  "float_div a b = to_double (a / b)"


section \<open>api/monica\_client.py\<close>

subsection \<open>calculate\_backoff\_delay\<close>

text \<open>
  \<open>delay = base_delay * (2 ** attempt); return min(delay, max_delay)\<close>.
  The attempt number is a loop index of \<open>range\<close>, a natural number.
\<close>

definition calculate_backoff_delay :: "nat \<Rightarrow> int \<Rightarrow> int \<Rightarrow> int" where
  "calculate_backoff_delay attempt base_delay max_delay =
     (let delay = base_delay * 2 ^ attempt in min delay max_delay)"

subsection \<open>call\_api and complete\<close>

text \<open>
  The network is the environment: \<open>requests.post\<close> at attempt \<open>i\<close> either raises or
  yields a response. \<open>json_body\<close> is \<open>None\<close> when \<open>response.json()\<close> raises.
\<close>

record response =
  status_code :: int
  json_body :: "pyval option"
  body_text :: string

datatype net_outcome =
    Timeout string
  | ConnectionError string
  | OtherError string
  | Response response

text \<open>What one pass through the body of the \<open>try\<close> block does: return the content,
  return \<open>None\<close>, or fall through to the backoff code after the handlers.\<close>

datatype attempt_step = Return_content pyval | Return_none | Fall_through

text \<open>The observable effects of \<open>call_api\<close>, in order.\<close>

datatype net_event = Post nat | Sleep int

text \<open>\<open>result.get('choices', [{}])[0].get('message', {}).get('content')\<close>\<close>

definition extract_content :: "pyval \<Rightarrow> exn + pyval" where
  "extract_content json_result =
     and_then (py_get json_result ''choices'' (PList [PDict []])) (\<lambda>choices.
     and_then (py_first choices) (\<lambda>choice.
     and_then (py_get choice ''message'' (PDict [])) (\<lambda>message.
     py_get message ''content'' PNone)))"

text \<open>The body of the \<open>try\<close> block, with the exceptions it can raise.\<close>

definition try_body :: "net_outcome \<Rightarrow> exn + attempt_step" where
  "try_body outcome =
     (case outcome of
        Timeout m \<Rightarrow> Inl (Exn ''Timeout'' m)
      | ConnectionError m \<Rightarrow> Inl (Exn ''ConnectionError'' m)
      | OtherError m \<Rightarrow> Inl (Exn ''Exception'' m)
      | Response r \<Rightarrow>
          if status_code r = 200 then
            (case json_body r of
               None \<Rightarrow> Inl (Exn ''JSONDecodeError'' (body_text r))
             | Some json_result \<Rightarrow>
                 and_then (extract_content json_result) (\<lambda>c.
                   if truthy c then Inr (Return_content c) else Inr Fall_through))
          else if status_code r = 429 then Inr Fall_through
          else if status_code r \<ge> 500 then Inr Fall_through
          else if 400 \<le> status_code r \<and> status_code r < 500 then Inr Return_none
          else Inr Fall_through)"

text \<open>The three \<open>except\<close> clauses (Timeout, ConnectionError, Exception) only log.\<close>

definition attempt_body :: "net_outcome \<Rightarrow> attempt_step" where
  "attempt_body outcome = (case try_body outcome of Inl e \<Rightarrow> Fall_through | Inr st \<Rightarrow> st)"

text \<open>
  \<open>for attempt in range(retry_attempts)\<close>, over the attempt indices still to run.
  After the loop \<open>call_api\<close> returns \<open>None\<close>.
\<close>

fun call_api_attempts ::
  "(nat \<Rightarrow> net_outcome) \<Rightarrow> int \<Rightarrow> int \<Rightarrow> nat list \<Rightarrow> net_event list \<Rightarrow> pyval option \<times> net_event list"
where
  "call_api_attempts net retry_attempts retry_delay [] evs = (None, evs)"
| "call_api_attempts net retry_attempts retry_delay (attempt # rest) evs =
     (case attempt_body (net attempt) of
        Return_content c \<Rightarrow> (Some c, evs @ [Post attempt])
      | Return_none \<Rightarrow> (None, evs @ [Post attempt])
      | Fall_through \<Rightarrow>
          if int attempt < retry_attempts - 1
          then call_api_attempts net retry_attempts retry_delay rest
                 (evs @ [Post attempt, Sleep (calculate_backoff_delay attempt retry_delay 300)])
          else call_api_attempts net retry_attempts retry_delay rest (evs @ [Post attempt]))"

text \<open>The effects of the attempts \<open>j\<close> up to \<open>k\<close> (exclusive) when each of them falls
  through and is followed by its backoff sleep.\<close>

definition retry_events :: "int \<Rightarrow> nat \<Rightarrow> nat \<Rightarrow> net_event list" where
  "retry_events retry_delay j k =
     concat (map (\<lambda>i. [Post i, Sleep (calculate_backoff_delay i retry_delay 300)]) [j..<k])"

text \<open>
  \<open>call_api\<close> returns the content (or \<open>None\<close>) and the elapsed time; the model returns
  the effects too. The clock is read before the loop and at the return; what it shows
  depends on the effects so far.
\<close>

definition call_api ::
  "(net_event list \<Rightarrow> rat) \<Rightarrow> (nat \<Rightarrow> net_outcome) \<Rightarrow> int \<Rightarrow> int \<Rightarrow> (pyval option \<times> rat) \<times> net_event list"
where
  "call_api clock net retry_attempts retry_delay =
     (let start_time = clock [];
          (returned, evs) = call_api_attempts net retry_attempts retry_delay [0..<nat retry_attempts] []
      in ((returned, clock evs - start_time), evs))"

definition complete ::
  "(net_event list \<Rightarrow> rat) \<Rightarrow> (nat \<Rightarrow> net_outcome) \<Rightarrow> int \<Rightarrow> int \<Rightarrow> (exn + pyval) \<times> net_event list"
where
  "complete clock net retry_attempts retry_delay =
     (let ((returned, elapsed_time), evs) = call_api clock net retry_attempts retry_delay
      in (case returned of
            None \<Rightarrow> Inl (Exn ''Exception'' (''Monica API call failed after '' @ str_int retry_attempts @ '' attempts''))
          | Some c \<Rightarrow> Inr c, evs))"


section \<open>scraper/content\_parser.py\<close>

text \<open>The dataclass. Python does not enforce the annotations, so a field holds any value.\<close>

record ParsedCompetitionInfo =
  name :: pyval
  organizer :: pyval
  partners :: pyval
  application_status :: pyval
  deadline :: pyval
  target_description :: pyval
  eligibility_criteria :: pyval
  stage_preference :: pyval
  industry_focus :: pyval
  innovation_type :: pyval
  prize_fund :: pyval
  benefits :: pyval
  support_offered :: pyval
  explicit_criteria :: pyval
  implied_preferences :: pyval
  confidence_score :: pyval
  parsing_timestamp :: pyval
  raw_content_length :: pyval

subsection \<open>validate\_parsed\_data\<close>

text \<open>A \<open>for\<close> loop over a list whose body updates local state and may raise.\<close>

fun for_each :: "('a \<Rightarrow> 's \<Rightarrow> exn + 's) \<Rightarrow> 'a list \<Rightarrow> 's \<Rightarrow> exn + 's" where
  "for_each body [] s = Inr s"
| "for_each body (x # xs) s = (case body x s of Inl e \<Rightarrow> Inl e | Inr s' \<Rightarrow> for_each body xs s')"

definition weights :: "(string \<times> (string \<times> rat) list) list" where
  "weights =
     [(''competition_basic_info'',
        [(''name'', to_double (15 / 100)), (''organizer'', to_double (10 / 100)),
         (''application_status'', to_double (15 / 100)), (''deadline'', to_double (20 / 100))]),
      (''benefits_and_prizes'',
        [(''prize_fund'', to_double (15 / 100)), (''benefits'', to_double (10 / 100))]),
      (''target_participants'', [(''criteria'', to_double (10 / 100))]),
      (''competition_focus'', [(''stage_preference'', to_double (5 / 100))])]"

text \<open>
  The inner loop body, on the pair (score, total\_weight):
  \<open>total_weight += weight\<close>, then
  \<open>if field in parsed_data[section] and parsed_data[section][field]: score += weight\<close>.
  Both sums are float additions; the weights are the float literals 0.15, 0.10, ...
\<close>

definition field_body :: "pyval \<Rightarrow> string \<Rightarrow> string \<times> rat \<Rightarrow> rat \<times> rat \<Rightarrow> exn + rat \<times> rat" where
  "field_body parsed_data section fw acc =
     (case (fw, acc) of ((field, weight), (score, total_weight)) \<Rightarrow>
        and_then (py_getitem parsed_data section) (\<lambda>sec.
        and_then (py_in field sec) (\<lambda>present.
          if present then
            and_then (py_getitem parsed_data section) (\<lambda>sec'.
            and_then (py_getitem sec' field) (\<lambda>v.
              Inr (if truthy v then float_add score weight else score,
                   float_add total_weight weight)))
          else Inr (score, float_add total_weight weight))))"

text \<open>The outer loop body: \<open>if section in parsed_data: for field, weight in fields.items(): ...\<close>\<close>

definition section_body ::
  "pyval \<Rightarrow> string \<times> (string \<times> rat) list \<Rightarrow> rat \<times> rat \<Rightarrow> exn + rat \<times> rat" where
  "section_body parsed_data sf acc =
     (case sf of (section, field_weights) \<Rightarrow>
        and_then (py_in section parsed_data) (\<lambda>present.
          if present then for_each (field_body parsed_data section) field_weights acc else Inr acc))"

definition validate_parsed_data :: "pyval \<Rightarrow> exn + rat" where
  "validate_parsed_data parsed_data =
     and_then (for_each (section_body parsed_data) weights (0, 0)) (\<lambda>(score, total_weight).
       Inr (min (if total_weight > 0 then float_div score total_weight else 0) 1))"

subsection \<open>\_dict\_to\_parsed\_info and save\_parsed\_info\<close>

text \<open>\<open>d.get(k)\<close> is \<open>d.get(k, None)\<close>.\<close>

definition dict_to_parsed_info :: "pyval \<Rightarrow> exn + ParsedCompetitionInfo" where
  "dict_to_parsed_info d =
     and_then (py_get d ''competition_basic_info'' (PDict [])) (\<lambda>basic.
     and_then (py_get d ''target_participants'' (PDict [])) (\<lambda>target.
     and_then (py_get d ''competition_focus'' (PDict [])) (\<lambda>focus.
     and_then (py_get d ''benefits_and_prizes'' (PDict [])) (\<lambda>bens.
     and_then (py_get d ''evaluation_criteria'' (PDict [])) (\<lambda>criteria.
     and_then (py_get basic ''name'' PNone) (\<lambda>v1.
     and_then (py_get basic ''organizer'' PNone) (\<lambda>v2.
     and_then (py_get basic ''partners'' PNone) (\<lambda>v3.
     and_then (py_get basic ''application_status'' PNone) (\<lambda>v4.
     and_then (py_get basic ''deadline'' PNone) (\<lambda>v5.
     and_then (py_get target ''description'' PNone) (\<lambda>v6.
     and_then (py_get target ''criteria'' PNone) (\<lambda>v7.
     and_then (py_get focus ''stage_preference'' PNone) (\<lambda>v8.
     and_then (py_get focus ''industry_focus'' PNone) (\<lambda>v9.
     and_then (py_get focus ''innovation_type'' PNone) (\<lambda>v10.
     and_then (py_get bens ''prize_fund'' PNone) (\<lambda>v11.
     and_then (py_get bens ''benefits'' PNone) (\<lambda>v12.
     and_then (py_get bens ''support_offered'' PNone) (\<lambda>v13.
     and_then (py_get criteria ''explicit_criteria'' PNone) (\<lambda>v14.
     and_then (py_get criteria ''implied_preferences'' PNone) (\<lambda>v15.
       Inr \<lparr> name = v1, organizer = v2, partners = v3, application_status = v4, deadline = v5,
             target_description = v6, eligibility_criteria = v7,
             stage_preference = v8, industry_focus = v9, innovation_type = v10,
             prize_fund = v11, benefits = v12, support_offered = v13,
             explicit_criteria = v14, implied_preferences = v15,
             confidence_score = PNone, parsing_timestamp = PNone,
             raw_content_length = PNone \<rparr>))))))))))))))))))))"

text \<open>The dictionary \<open>data\<close> that \<open>save_parsed_info\<close> builds and dumps as JSON.\<close>

definition save_parsed_info_data :: "ParsedCompetitionInfo \<Rightarrow> pyval" where
  "save_parsed_info_data parsed_info =
     PDict
      [(''competition_basic_info'', PDict
          [(''name'', name parsed_info),
           (''organizer'', organizer parsed_info),
           (''partners'', partners parsed_info),
           (''application_status'', application_status parsed_info),
           (''deadline'', deadline parsed_info)]),
       (''target_participants'', PDict
          [(''description'', target_description parsed_info),
           (''criteria'', eligibility_criteria parsed_info)]),
       (''competition_focus'', PDict
          [(''stage_preference'', stage_preference parsed_info),
           (''industry_focus'', industry_focus parsed_info),
           (''innovation_type'', innovation_type parsed_info)]),
       (''benefits_and_prizes'', PDict
          [(''prize_fund'', prize_fund parsed_info),
           (''benefits'', benefits parsed_info),
           (''support_offered'', support_offered parsed_info)]),
       (''evaluation_criteria'', PDict
          [(''explicit_criteria'', explicit_criteria parsed_info),
           (''implied_preferences'', implied_preferences parsed_info)]),
       (''metadata'', PDict
          [(''confidence_score'', confidence_score parsed_info),
           (''parsing_timestamp'', parsing_timestamp parsed_info),
           (''raw_content_length'', raw_content_length parsed_info)])]"


section \<open>scraper/web\_scraper.py\<close>

text \<open>The dataclass; the fields after \<open>success\<close> default to \<open>None\<close>.\<close>

record ScrapingResult =
  url :: string
  success :: bool
  content :: "string option"
  title :: "string option"
  meta_description :: "string option"
  links :: "string list option"
  images :: "string list option"
  error_message :: "string option"
  scraping_method :: "string option"
  timestamp :: "string option"

definition new_result :: "string \<Rightarrow> bool \<Rightarrow> ScrapingResult" where
  "new_result u ok =
     \<lparr> url = u, success = ok, content = None, title = None, meta_description = None,
       links = None, images = None, error_message = None, scraping_method = None,
       timestamp = None \<rparr>"

text \<open>
  What the HTML libraries hand to the scraper for a page that loaded: the text that
  \<open>_extract_content_from_soup\<close> returns, the title, the meta description, and every link
  and image address, already joined with the base address. For the browser the title is
  \<open>driver.title\<close>.
\<close>

record page =
  page_text :: string
  page_title :: "string option"
  page_meta_description :: "string option"
  page_links :: "string list"
  page_images :: "string list"

text \<open>
  One pass through the \<open>try\<close> block of \<open>scrape_static_content\<close> ends in a
  \<open>requests.exceptions.RequestException\<close> (which \<open>raise_for_status\<close> raises too), in
  another exception, or with a page. The browser run of \<open>scrape_dynamic_content\<close> ends in a
  \<open>TimeoutException\<close>, a \<open>WebDriverException\<close>, another exception, or with a page.
\<close>

datatype static_outcome = RequestException string | StaticError string | StaticPage page

datatype dynamic_outcome =
  TimeoutException | WebDriverException string | DynamicError string | DynamicPage page

datatype scrape_event = Get nat | Random_delay | Browse

text \<open>The environment of a scraper: the URL parser, the network, the browser, the clock.\<close>

record scraper_env =
  urlparse :: "string \<Rightarrow> exn + string \<times> string"
  static_fetch :: "string \<Rightarrow> nat \<Rightarrow> static_outcome"
  dynamic_fetch :: "string \<Rightarrow> dynamic_outcome"
  now :: "scrape_event list \<Rightarrow> string"

text \<open>
  \<open>ScrapingResult\<close> objects are mutable and shared by reference, so they live in a store:
  an object is its index in \<open>heap\<close>. \<open>trace\<close> records the network and browser effects.
\<close>

record world =
  heap :: "ScrapingResult list"
  trace :: "scrape_event list"

definition alloc :: "ScrapingResult \<Rightarrow> world \<Rightarrow> nat \<times> world" where
  "alloc r w = (length (heap w), w\<lparr>heap := heap w @ [r]\<rparr>)"

subsection \<open>scrape\_static\_content\<close>

definition static_success :: "scraper_env \<Rightarrow> string \<Rightarrow> page \<Rightarrow> world \<Rightarrow> ScrapingResult" where
  "static_success env u p w =
     (new_result u True)
       \<lparr> content := Some (page_text p),
         title := page_title p,
         meta_description := page_meta_description p,
         links := Some (take 50 (page_links p)),
         images := Some (take 20 (page_images p)),
         scraping_method := Some ''static'',
         timestamp := Some (now env (trace w)) \<rparr>"

definition static_failure :: "scraper_env \<Rightarrow> string \<Rightarrow> string \<Rightarrow> world \<Rightarrow> ScrapingResult" where
  "static_failure env u msg w =
     (new_result u False)
       \<lparr> error_message := Some msg,
         scraping_method := Some ''static'',
         timestamp := Some (now env (trace w)) \<rparr>"

text \<open>
  \<open>for attempt in range(self.max_retries)\<close>, over the attempt indices still to run. A
  request exception ends the call only at the last attempt; when the loop runs out the
  function ends without a \<open>return\<close>, that is, it returns \<open>None\<close>. The random delay
  before a retry is recorded as an effect.
\<close>

fun static_attempts ::
  "scraper_env \<Rightarrow> int \<Rightarrow> string \<Rightarrow> nat list \<Rightarrow> world \<Rightarrow> nat option \<times> world"
where
  "static_attempts env max_retries u [] w = (None, w)"
| "static_attempts env max_retries u (attempt # rest) w =
     (let w1 = w\<lparr>trace := trace w @ (if attempt > 0 then [Random_delay] else []) @ [Get attempt]\<rparr>
      in case static_fetch env u attempt of
           StaticPage p \<Rightarrow>
             (case alloc (static_success env u p w1) w1 of (a, w2) \<Rightarrow> (Some a, w2))
         | RequestException e \<Rightarrow>
             if int attempt = max_retries - 1
             then (case alloc (static_failure env u
                          (''Static scraping failed after '' @ str_int max_retries @ '' attempts: '' @ e) w1) w1
                   of (a, w2) \<Rightarrow> (Some a, w2))
             else static_attempts env max_retries u rest w1
         | StaticError e \<Rightarrow>
             (case alloc (static_failure env u (''Unexpected error: '' @ e) w1) w1
              of (a, w2) \<Rightarrow> (Some a, w2)))"

definition scrape_static_content ::
  "scraper_env \<Rightarrow> int \<Rightarrow> string \<Rightarrow> world \<Rightarrow> nat option \<times> world" where
  "scrape_static_content env max_retries u w =
     static_attempts env max_retries u [0..<nat max_retries] w"

subsection \<open>scrape\_dynamic\_content\<close>

definition dynamic_failure :: "scraper_env \<Rightarrow> string \<Rightarrow> string \<Rightarrow> world \<Rightarrow> ScrapingResult" where
  "dynamic_failure env u msg w =
     (new_result u False)
       \<lparr> error_message := Some msg,
         scraping_method := Some ''dynamic'',
         timestamp := Some (now env (trace w)) \<rparr>"

definition scrape_dynamic_content :: "scraper_env \<Rightarrow> string \<Rightarrow> world \<Rightarrow> nat \<times> world" where
  "scrape_dynamic_content env u w =
     (let w1 = w\<lparr>trace := trace w @ [Browse]\<rparr>
      in case dynamic_fetch env u of
           DynamicPage p \<Rightarrow>
             alloc ((new_result u True)
                      \<lparr> content := Some (page_text p),
                        title := page_title p,
                        meta_description := page_meta_description p,
                        links := Some (take 50 (page_links p)),
                        images := Some (take 20 (page_images p)),
                        scraping_method := Some ''dynamic'',
                        timestamp := Some (now env (trace w1)) \<rparr>) w1
         | TimeoutException \<Rightarrow>
             alloc (dynamic_failure env u (''Page load timeout for '' @ u) w1) w1
         | WebDriverException e \<Rightarrow>
             alloc (dynamic_failure env u (''WebDriver error for '' @ u @ '': '' @ e) w1) w1
         | DynamicError e \<Rightarrow>
             alloc (dynamic_failure env u (''Unexpected error during dynamic scraping: '' @ e) w1) w1)"

subsection \<open>\_is\_content\_sufficient\<close>

definition competition_keywords :: "string list" where
  "competition_keywords =
     [''competition'', ''apply'', ''application'', ''deadline'', ''prize'', ''eligibility'',
      ''requirements'', ''submit'', ''participants'', ''winner'', ''startup'', ''innovation'',
      ''entrepreneur'', ''funding'', ''investment'', ''accelerator'']"

definition is_content_sufficient :: "string option \<Rightarrow> bool" where
  "is_content_sufficient c =
     (case c of
        None \<Rightarrow> False
      | Some s \<Rightarrow>
          if s = [] then False
          else if length (strip s) < 500 then False
          else (let content_lower = lower s;
                    keyword_matches =
                      length (filter (\<lambda>keyword. str_contains keyword content_lower) competition_keywords)
                in keyword_matches \<ge> 3))"

subsection \<open>scrape\_url\<close>

text \<open>
  The result is the returned object or the exception that leaves \<open>scrape_url\<close>.
  \<open>static_result.success\<close> on \<open>None\<close> raises an \<open>AttributeError\<close>. When both stages fail
  the static result is updated in place.
\<close>

definition scrape_url ::
  "scraper_env \<Rightarrow> int \<Rightarrow> string \<Rightarrow> bool \<Rightarrow> world \<Rightarrow> (exn + nat) \<times> world" where
  "scrape_url env max_retries u force_dynamic w =
     (case urlparse env u of
        Inl e \<Rightarrow> (Inl e, w)
      | Inr (scheme, netloc) \<Rightarrow>
          if \<not> (scheme \<noteq> [] \<and> netloc \<noteq> []) then
            (case alloc ((new_result u False)
                           \<lparr> error_message := Some ''Invalid URL format'',
                             timestamp := Some (now env (trace w)) \<rparr>) w
             of (a, w') \<Rightarrow> (Inr a, w'))
          else if force_dynamic then
            (case scrape_dynamic_content env u w of (d, w') \<Rightarrow> (Inr d, w'))
          else
            (case scrape_static_content env max_retries u w of
               (None, w1) \<Rightarrow> (Inl (no_attribute PNone ''success''), w1)
             | (Some a, w1) \<Rightarrow>
                 if success (heap w1 ! a) \<and> is_content_sufficient (content (heap w1 ! a))
                 then (Inr a, w1)
                 else
                   (case scrape_dynamic_content env u w1 of (d, w2) \<Rightarrow>
                      if success (heap w2 ! d) then (Inr d, w2)
                      else
                        (Inr a,
                         w2\<lparr>heap := (heap w2)
                              [a := (heap w2 ! a)
                                 \<lparr>error_message := Some
                                    (''Both static and dynamic scraping failed. Static: ''
                                      @ str_opt (error_message (heap w2 ! a))
                                      @ '', Dynamic: ''
                                      @ str_opt (error_message (heap w2 ! d)))\<rparr>]\<rparr>))))"

subsection \<open>The orchestrator's use of a result (workflow/workflow\_execution.py)\<close>

definition opt_str :: "string option \<Rightarrow> pyval" where
  "opt_str m = (case m of None \<Rightarrow> PNone | Some s \<Rightarrow> PStr s)"

text \<open>\<open>x or default\<close> on an optional sequence.\<close>

definition or_else :: "'a list option \<Rightarrow> 'a list \<Rightarrow> 'a list" where
  "or_else m d = (case m of None \<Rightarrow> d | Some xs \<Rightarrow> if xs = [] then d else xs)"

definition scraping_metadata :: "ScrapingResult \<Rightarrow> pyval" where
  "scraping_metadata r =
     PDict
      [(''url'', PStr (url r)),
       (''success'', PBool (success r)),
       (''title'', opt_str (title r)),
       (''meta_description'', opt_str (meta_description r)),
       (''scraping_method'', opt_str (scraping_method r)),
       (''timestamp'', opt_str (timestamp r)),
       (''error_message'', opt_str (error_message r)),
       (''links_count'', PInt (int (length (or_else (links r) [])))),
       (''images_count'', PInt (int (length (or_else (images r) [])))),
       (''content_length'', PInt (int (length (or_else (content r) []))))]"

text \<open>
  \<open>execute_scraping\<close>: run \<open>scrape_url\<close>, give up when it raised or failed, otherwise
  write the content and the metadata. The files written are returned; creating the
  directory and writing are taken to succeed.
\<close>

definition execute_scraping ::
  "scraper_env \<Rightarrow> int \<Rightarrow> string \<Rightarrow> world \<Rightarrow> (bool \<times> (string \<times> pyval) list) \<times> world" where
  "execute_scraping env max_retries target_url w =
     (case scrape_url env max_retries target_url False w of
        (Inl e, w') \<Rightarrow> ((False, []), w')
      | (Inr a, w') \<Rightarrow>
          (let r = heap w' ! a in
           if \<not> success r then ((False, []), w')
           else ((True,
                  [(''scraped_content.txt'', PStr (or_else (content r) ''No content extracted'')),
                   (''scraping_metadata.json'', scraping_metadata r)]), w')))"


section \<open>workflow/workflow\_execution.py: application generation\<close>

subsection \<open>construct\_final\_prompt\<close>

text \<open>
  \<open>s.replace(old, new)\<close>: every occurrence of \<open>old\<close>, found from left to right without
  overlap, becomes \<open>new\<close>; for an empty \<open>old\<close>, \<open>new\<close> is put before every character and at
  the end.
\<close>

function replace :: "string \<Rightarrow> string \<Rightarrow> string \<Rightarrow> string" where
  "replace old new s =
     (if old = [] then new @ concat (map (\<lambda>c. c # new) s)
      else if s = [] then []
      else if prefix old s then new @ replace old new (drop (length old) s)
      else hd s # replace old new (tl s))"
  by pat_completeness auto
termination
  by (relation "measure (\<lambda>(old, new, s). length s)") auto

text \<open>
  The reference documents are a dictionary from keys to values; \<open>render\<close> gives the text
  that the f-string prints for a value; \<open>ts\<close> is \<open>datetime.now().isoformat()\<close>.
\<close>

definition construct_final_prompt ::
  "(pyval \<Rightarrow> string) \<Rightarrow> string \<Rightarrow> (string \<times> pyval) list \<Rightarrow> string \<Rightarrow> string \<Rightarrow> string" where
  "construct_final_prompt render template reference_docs competition_name ts =
     (let prompt1 = replace ''{COMPETITION_NAME}'' competition_name template;
          prompt2 = replace ''{TIMESTAMP}'' ts prompt1;
          reference_data =
            concat (map (\<lambda>(k, c). ''\<newline>## '' @ k @ ''\<newline>'' @ render c @ ''\<newline>'') reference_docs);
          prompt3 = replace ''{reference_data}'' reference_data prompt2
      in replace ''{history_data}'' [] prompt3)"

subsection \<open>call\_llm\_for\_application\<close>

text \<open>
  The environment of the generation stage. The file system: whether a path exists, the
  text read from it (or the exception of \<open>open\<close> and \<open>read\<close>), and the outcome of creating
  the output directory and opening the output file. A path is the list of the strings it
  was built from: \<open>Path(a) / b / c\<close> is \<open>[a, b, c]\<close>. The library: \<open>json.loads\<close> and
  \<open>str\<close> of a value that is no string. The clock (\<open>wf_now n\<close> is its \<open>n\<close>-th reading) and
  the network of the LLM client.
\<close>

record workflow_env =
  file_exists :: "string list \<Rightarrow> bool"
  read_file :: "string list \<Rightarrow> exn + string"
  json_loads :: "string \<Rightarrow> exn + pyval"
  py_str :: "pyval \<Rightarrow> string"
  wf_now :: "nat \<Rightarrow> string"
  llm_clock :: "net_event list \<Rightarrow> rat"
  llm_net :: "nat \<Rightarrow> net_outcome"
  open_for_write :: "string list \<Rightarrow> exn option"

text \<open>The document returned by the \<open>except\<close> clause of \<open>call_llm_for_application\<close>.\<close>

definition fallback_document :: "string \<Rightarrow> nat \<Rightarrow> string \<Rightarrow> string" where
  "fallback_document err prompt_length ts =
     ''# Application Generation Failed\<newline>\<newline>''
     @ ''An error occurred while generating the application content: '' @ err @ ''\<newline>\<newline>''
     @ ''**Original prompt length:** '' @ digits prompt_length @ '' characters\<newline>''
     @ ''**Error timestamp:** '' @ ts @ ''\<newline>\<newline>''
     @ ''Please check the logs for more details and verify your Monica AI configuration.\<newline>\<newline>''
     @ ''---\<newline>''
     @ ''*Competition Application Automation System*\<newline>''"

text \<open>
  The \<open>try\<close> block: read the LLM settings (\<open>.get\<close> raises on a value that is no
  dictionary), call \<open>complete\<close> with 3 attempts and base delay 5, take the length of the
  answer for the log, return the answer.
\<close>

definition llm_try_block :: "pyval \<Rightarrow> workflow_env \<Rightarrow> (exn + pyval) \<times> net_event list" where
  "llm_try_block cfg env =
     (case py_get cfg ''llm_settings'' (PDict []) of
        Inl e \<Rightarrow> (Inl e, [])
      | Inr llm_config \<Rightarrow>
          (case py_get llm_config ''base_url'' (PStr ''https://openapi.monica.im/v1'') of
             Inl e \<Rightarrow> (Inl e, [])
           | Inr base_url \<Rightarrow>
               (case complete (llm_clock env) (llm_net env) 3 5 of
                  (Inl e, evs) \<Rightarrow> (Inl e, evs)
                | (Inr application_content, evs) \<Rightarrow>
                    (case py_len application_content of
                       Inl e \<Rightarrow> (Inl e, evs)
                     | Inr n \<Rightarrow> (Inr application_content, evs)))))"

text \<open>\<open>except Exception as e\<close>: the fallback document is returned instead.\<close>

definition call_llm_for_application ::
  "pyval \<Rightarrow> workflow_env \<Rightarrow> string \<Rightarrow> pyval \<times> net_event list" where
  "call_llm_for_application cfg env prompt =
     (case llm_try_block cfg env of
        (Inr application_content, evs) \<Rightarrow> (application_content, evs)
      | (Inl e, evs) \<Rightarrow> (PStr (fallback_document (exn_str e) (length prompt) (wf_now env 1)), evs))"

subsection \<open>load\_prompt\_template\<close>

text \<open>\<open>Path(x)\<close> accepts a string.\<close>

definition as_path :: "pyval \<Rightarrow> exn + string" where
  "as_path v =
     (case v of
        PStr s \<Rightarrow> Inr s
      | _ \<Rightarrow> Inl (Exn ''TypeError''
                 (''expected str, bytes or os.PathLike object, not '' @ type_name v)))"

definition load_prompt_template :: "pyval \<Rightarrow> workflow_env \<Rightarrow> exn + string" where
  "load_prompt_template cfg env =
     and_then (py_getitem cfg ''paths'') (\<lambda>paths.
     and_then (py_getitem paths ''prompt_template'') (\<lambda>p.
     and_then (as_path p) (\<lambda>prompt_path. read_file env [prompt_path])))"

subsection \<open>load\_reference\_docs\<close>

text \<open>\<open>d[k] = v\<close> on a dictionary that keeps insertion order.\<close>

fun dict_set :: "(string \<times> 'v) list \<Rightarrow> string \<Rightarrow> 'v \<Rightarrow> (string \<times> 'v) list" where
  "dict_set [] k v = [(k, v)]"
| "dict_set ((k', v') # kvs) k v = (if k' = k then (k, v) # kvs else (k', v') # dict_set kvs k v)"

text \<open>\<open>d.items()\<close> and the elements a \<open>for\<close> loop draws from a value.\<close>

fun py_items :: "pyval \<Rightarrow> exn + (string \<times> pyval) list" where
  "py_items (PDict kvs) = Inr kvs"
| "py_items v = Inl (no_attribute v ''items'')"

fun py_iter :: "pyval \<Rightarrow> exn + pyval list" where
  "py_iter (PList xs) = Inr xs"
| "py_iter (PStr s) = Inr (map (\<lambda>c. PStr [c]) s)"
| "py_iter (PDict kvs) = Inr (map (\<lambda>kv. PStr (fst kv)) kvs)"
| "py_iter v = Inl (Exn ''TypeError'' (quoted (type_name v) @ '' object is not iterable''))"

text \<open>\<open>sep.join(xs)\<close>.\<close>

fun join :: "string \<Rightarrow> string list \<Rightarrow> string" where
  "join sep [] = []"
| "join sep [x] = x"
| "join sep (x # y # ys) = x @ sep @ join sep (y # ys)"

text \<open>
  \<open>Path(s).name\<close> for a POSIX path: the last of the components between slashes, empty
  components and \<open>.\<close> left out; empty when there is none.
\<close>

fun split_on :: "char \<Rightarrow> string \<Rightarrow> string list" where
  "split_on sep [] = [[]]"
| "split_on sep (x # xs) =
     (if x = sep then [] # split_on sep xs
      else (case split_on sep xs of
              [] \<Rightarrow> [[x]]
            | w # ws \<Rightarrow> (x # w) # ws))"

definition path_name :: "string \<Rightarrow> string" where
  "path_name s =
     (let parts = filter (\<lambda>p. p \<noteq> [] \<and> p \<noteq> ''.'') (split_on (CHR ''/'') s)
      in if parts = [] then [] else last parts)"

text \<open>
  \<open>Path(self.config['paths']['input_base']) / competition_name / 'competition_info' / file\<close>
\<close>

definition competition_file :: "pyval \<Rightarrow> string \<Rightarrow> string \<Rightarrow> exn + string list" where
  "competition_file cfg competition_name file =
     and_then (py_getitem cfg ''paths'') (\<lambda>paths.
     and_then (py_getitem paths ''input_base'') (\<lambda>b.
     and_then (as_path b) (\<lambda>input_base.
       Inr [input_base, competition_name, ''competition_info'', file])))"

text \<open>
  The body of \<open>for file_path in file_list\<close>, on the list \<open>category_content\<close>: an
  exception while reading the file is caught and logged, a missing file is logged.
\<close>

definition file_body :: "workflow_env \<Rightarrow> pyval \<Rightarrow> string list \<Rightarrow> exn + string list" where
  "file_body env file_path category_content =
     and_then (as_path file_path) (\<lambda>full_path.
       if file_exists env [full_path] then
         (case read_file env [full_path] of
            Inl e \<Rightarrow> Inr category_content
          | Inr file_text \<Rightarrow>
              Inr (category_content @ [''## '' @ path_name full_path @ ''\<newline>'' @ file_text]))
       else Inr category_content)"

text \<open>The body of \<open>for category, file_list in reference_docs.items()\<close>, on \<open>docs\<close>.\<close>

definition category_body ::
  "workflow_env \<Rightarrow> string \<times> pyval \<Rightarrow> (string \<times> pyval) list \<Rightarrow> exn + (string \<times> pyval) list" where
  "category_body env cf docs =
     (case cf of (category, file_list) \<Rightarrow>
        and_then (py_iter file_list) (\<lambda>file_paths.
        and_then (for_each (file_body env) file_paths []) (\<lambda>category_content.
          Inr (if category_content \<noteq> []
               then dict_set docs (''reference_'' @ category)
                      (PStr (join ''\<newline>\<newline>'' category_content))
               else docs))))"

definition load_reference_docs ::
  "pyval \<Rightarrow> workflow_env \<Rightarrow> string \<Rightarrow> exn + (string \<times> pyval) list" where
  "load_reference_docs cfg env competition_name =
     and_then (competition_file cfg competition_name ''parsed_competition_info.json'') (\<lambda>parsed_info_path.
     and_then (if file_exists env parsed_info_path
               then and_then (read_file env parsed_info_path) (\<lambda>file_text.
                    and_then (json_loads env file_text) (\<lambda>parsed.
                      Inr (dict_set [] ''competition_info'' parsed)))
               else Inr []) (\<lambda>docs1.
     and_then (competition_file cfg competition_name ''scraped_content.txt'') (\<lambda>content_path.
     and_then (if file_exists env content_path
               then and_then (read_file env content_path) (\<lambda>file_text.
                      Inr (dict_set docs1 ''scraped_content'' (PStr file_text)))
               else Inr docs1) (\<lambda>docs2.
     and_then (py_get cfg ''reference_docs'' (PDict [])) (\<lambda>reference_docs.
     and_then (py_items reference_docs) (\<lambda>categories.
       for_each (category_body env) categories docs2))))))"

subsection \<open>execute\_application\_generation\<close>

text \<open>What an f-string prints for a value: a string as it is, anything else by \<open>str\<close>.\<close>

definition format_value :: "workflow_env \<Rightarrow> pyval \<Rightarrow> string" where
  "format_value env v = (case v of PStr s \<Rightarrow> s | _ \<Rightarrow> py_str env v)"

text \<open>
  The steps before the LLM call: load the template, load the reference documents, build
  the prompt.
\<close>

definition final_prompt :: "pyval \<Rightarrow> workflow_env \<Rightarrow> string \<Rightarrow> exn + string" where
  "final_prompt cfg env competition_name =
     and_then (load_prompt_template cfg env) (\<lambda>prompt_template.
     and_then (load_reference_docs cfg env competition_name) (\<lambda>reference_docs.
       Inr (construct_final_prompt (format_value env) prompt_template reference_docs
              competition_name (wf_now env 0))))"

text \<open>
  The steps after the LLM call: the output directory, the output file, \<open>f.write\<close>. A path
  is the list of its components. The result is what the function will return and the
  files it wrote; \<open>f.write\<close> of a value that is no string raises after the file was
  opened, which leaves it empty.
\<close>

definition save_output ::
  "pyval \<Rightarrow> workflow_env \<Rightarrow> string \<Rightarrow> pyval \<Rightarrow> bool \<times> (string list \<times> string) list" where
  "save_output cfg env competition_name application_content =
     (case and_then (py_getitem cfg ''paths'') (\<lambda>paths.
           and_then (py_getitem paths ''output_base'') as_path) of
        Inl e \<Rightarrow> (False, [])
      | Inr output_base \<Rightarrow>
          (let output_file = [output_base, competition_name, competition_name @ ''_application.md'']
           in case open_for_write env output_file of
                Some e \<Rightarrow> (False, [])
              | None \<Rightarrow>
                  (case application_content of
                     PStr doc \<Rightarrow> (True, [(output_file, doc)])
                   | _ \<Rightarrow> (False, [(output_file, [])]))))"

text \<open>
  The whole stage: any exception of the \<open>try\<close> block makes it return \<open>False\<close>. The result
  is the returned flag, the files written and the network effects.
\<close>

definition execute_application_generation ::
  "pyval \<Rightarrow> workflow_env \<Rightarrow> string \<Rightarrow> (bool \<times> (string list \<times> string) list) \<times> net_event list" where
  "execute_application_generation cfg env competition_name =
     (case final_prompt cfg env competition_name of
        Inl e \<Rightarrow> ((False, []), [])
      | Inr prompt \<Rightarrow>
          (case call_llm_for_application cfg env prompt of
             (application_content, evs) \<Rightarrow>
               (save_output cfg env competition_name application_content, evs)))"


section \<open>Example inputs\<close>

text \<open>
  An environment in which every static request fails with a request exception and the
  browser times out, for the address \<open>https://example.com\<close>; and the empty store.
\<close>

definition failing_env :: scraper_env where
  "failing_env =
     \<lparr> urlparse = (\<lambda>u. Inr (''https'', ''example.com'')),
       static_fetch = (\<lambda>u attempt. RequestException ''boom''),
       dynamic_fetch = (\<lambda>u. TimeoutException),
       now = (\<lambda>evs. ''T'' @ digits (length evs)) \<rparr>"

definition empty_world :: world where
  "empty_world = \<lparr> heap = [], trace = [] \<rparr>"

text \<open>
  A workflow configuration and an environment in which the prompt template reads
  \<open>Apply to {COMPETITION_NAME}{reference_data}\<close>, the scraped content of the competition
  \<open>X\<close> is the only reference document on disk, every call of the LLM endpoint times out
  and the output file can be written.
\<close>

definition example_config :: pyval where
  "example_config =
     PDict [(''llm_settings'', PDict [(''model'', PStr ''gpt-4.1'')]),
            (''paths'', PDict [(''input_base'', PStr ''input''),
                               (''output_base'', PStr ''output''),
                               (''prompt_template'', PStr ''prompt.md'')])]"

definition timeout_env :: workflow_env where
  "timeout_env =
     \<lparr> file_exists =
         (\<lambda>p. p = [''prompt.md''] \<or> p = [''input'', ''X'', ''competition_info'', ''scraped_content.txt'']),
       read_file =
         (\<lambda>p. if p = [''prompt.md''] then Inr ''Apply to {COMPETITION_NAME}{reference_data}''
              else if p = [''input'', ''X'', ''competition_info'', ''scraped_content.txt'']
              then Inr ''Prize''
              else Inl (Exn ''FileNotFoundError'' ''No such file or directory'')),
       json_loads = (\<lambda>t. Inl (Exn ''JSONDecodeError'' t)),
       py_str = (\<lambda>v. type_name v),
       wf_now = (\<lambda>n. ''T'' @ digits n),
       llm_clock = (\<lambda>evs. of_nat (length evs)),
       llm_net = (\<lambda>i. Timeout ''timed out''),
       open_for_write = (\<lambda>p. None) \<rparr>"
section \<open>Properties of calculate\_backoff\_delay\<close>

lemma backoff_mono:
  assumes "0 \<le> b" and "n \<le> n'"
  shows "calculate_backoff_delay n b m \<le> calculate_backoff_delay n' b m"
proof -
  have "(2::int) ^ n \<le> 2 ^ n'"
    using assms(2) by (simp add: power_increasing)
  then have "b * 2 ^ n \<le> b * 2 ^ n'"
    using assms(1) by (rule mult_left_mono)
  then show ?thesis
    by (simp add: calculate_backoff_delay_def min_le_iff_disj)
qed

text \<open>
  Claim C5. For every attempt index \<open>n\<close> the delay is \<open>min (base_delay * 2 ^ n) max_delay\<close>;
  it never exceeds \<open>max_delay\<close>; for a base delay that is not negative it is monotonically
  non-decreasing in the attempt index; and for base 5 and maximum 300 the delays of the
  attempts 0 to 6 are 5, 10, 20, 40, 80, 160, 300.
\<close>

theorem backoff_delay_formula:
  "calculate_backoff_delay n b m = min (b * 2 ^ n) m
   \<and> calculate_backoff_delay n b m \<le> m
   \<and> (0 \<le> b \<longrightarrow> n \<le> n' \<longrightarrow> calculate_backoff_delay n b m \<le> calculate_backoff_delay n' b m)
   \<and> map (\<lambda>k. calculate_backoff_delay k 5 300) [0, 1, 2, 3, 4, 5, 6] = [5, 10, 20, 40, 80, 160, 300]"
proof -
  have "map (\<lambda>k. calculate_backoff_delay k 5 300) [0, 1, 2, 3, 4, 5, 6] = [5, 10, 20, 40, 80, 160, 300]"
    by (simp add: calculate_backoff_delay_def)
  then show ?thesis
    using backoff_mono [of b n n' m] by (simp add: calculate_backoff_delay_def)
qed

theorem backoff_delay_formula_witness:
  "(0::int) \<le> 5 \<and> (5::nat) \<le> 6
   \<and> calculate_backoff_delay 5 5 300 = 160
   \<and> calculate_backoff_delay 6 5 300 = 300
   \<and> calculate_backoff_delay 5 5 300 \<le> calculate_backoff_delay 6 5 300"
  using backoff_delay_formula [of 5 5 300 6] by (simp add: calculate_backoff_delay_def)


section \<open>Properties of call\_api\<close>

lemma attempt_body_success_iff:
  "attempt_body outcome = Return_content c \<longleftrightarrow>
     (\<exists>r j. outcome = Response r \<and> status_code r = 200 \<and> json_body r = Some j
        \<and> extract_content j = Inr c \<and> truthy c)"
  by (cases outcome)
     (auto simp: attempt_body_def try_body_def and_then_def split: option.splits sum.splits if_splits)

lemma attempt_body_200_otherwise:
  assumes "status_code r = 200"
    and "\<not> (\<exists>j c. json_body r = Some j \<and> extract_content j = Inr c \<and> truthy c)"
  shows "attempt_body (Response r) = Fall_through"
  using assms
  by (auto simp: attempt_body_def try_body_def and_then_def split: option.splits sum.splits)

text \<open>An exception raised inside the \<open>try\<close> block never leaves the loop body.\<close>

lemma attempt_body_caught:
  "try_body outcome = Inl e \<Longrightarrow> attempt_body outcome = Fall_through"
  by (simp add: attempt_body_def)

lemma attempt_body_raising [simp]:
  "attempt_body (Timeout m) = Fall_through"
  "attempt_body (ConnectionError m) = Fall_through"
  "attempt_body (OtherError m) = Fall_through"
  by (simp_all add: attempt_body_def try_body_def)

lemma attempt_body_terminal:
  assumes "400 \<le> status_code r" "status_code r < 500" "status_code r \<noteq> 429"
  shows "attempt_body (Response r) = Return_none"
  using assms by (simp add: attempt_body_def try_body_def)

text \<open>A well-formed answer: the content is read at the first choice's message.\<close>

lemma extract_content_well_formed:
  assumes "map_of kvs ''choices'' = Some (PList (PDict choice # others))"
    and "map_of choice ''message'' = Some (PDict message)"
  shows "extract_content (PDict kvs) =
           Inr (case map_of message ''content'' of Some v \<Rightarrow> v | None \<Rightarrow> PNone)"
  using assms by (simp add: extract_content_def and_then_def)

lemma call_api_attempts_fall_through:
  assumes "attempt_body (net attempt) = Fall_through"
  shows "call_api_attempts net ra rd (attempt # rest) evs =
           call_api_attempts net ra rd rest
             (evs @ [Post attempt] @
               (if int attempt < ra - 1 then [Sleep (calculate_backoff_delay attempt rd 300)] else []))"
  using assms by simp

text \<open>
  The loop from attempt \<open>j\<close> on, when the attempts before \<open>k\<close> fall through and attempt
  \<open>k\<close> returns \<open>None\<close>: by induction on the number \<open>k - j\<close> of attempts in between.
\<close>

lemma call_api_attempts_terminal:
  assumes "j \<le> k" and "k < n" and "int n \<le> ra"
    and "\<forall>i. j \<le> i \<and> i < k \<longrightarrow> attempt_body (net i) = Fall_through"
    and "attempt_body (net k) = Return_none"
  shows "call_api_attempts net ra rd [j..<n] evs = (None, evs @ retry_events rd j k @ [Post k])"
  using assms
proof (induction "k - j" arbitrary: j evs)
  case 0
  then have "j = k" by simp
  with 0 have "[j..<n] = k # [Suc k..<n]" by (simp add: upt_conv_Cons)
  with 0 \<open>j = k\<close> show ?case by (simp add: retry_events_def)
next
  case (Suc d)
  then have jk: "j < k" and jn: "j < n" by simp_all
  have step: "[j..<n] = j # [Suc j..<n]" using jn by (simp add: upt_conv_Cons)
  have ft: "attempt_body (net j) = Fall_through" using Suc.prems jk by simp
  have sl: "int j < ra - 1" using jk Suc.prems by simp
  have IH: "call_api_attempts net ra rd [Suc j..<n] evs' =
              (None, evs' @ retry_events rd (Suc j) k @ [Post k])" for evs'
    using Suc.hyps(1)[of "Suc j" evs'] Suc.hyps(2) Suc.prems jk by simp
  have ev: "retry_events rd j k =
              [Post j, Sleep (calculate_backoff_delay j rd 300)] @ retry_events rd (Suc j) k"
    using jk by (simp add: retry_events_def upt_conv_Cons)
  show ?case
    by (simp add: step ft sl IH ev)
qed

text \<open>
  The same loop when attempt \<open>k\<close> succeeds, and the converse: content is returned only
  from an attempt that succeeded.
\<close>

lemma call_api_attempts_success:
  assumes "j \<le> k" and "k < n" and "int n \<le> ra"
    and "\<forall>i. j \<le> i \<and> i < k \<longrightarrow> attempt_body (net i) = Fall_through"
    and "attempt_body (net k) = Return_content c"
  shows "call_api_attempts net ra rd [j..<n] evs = (Some c, evs @ retry_events rd j k @ [Post k])"
  using assms
proof (induction "k - j" arbitrary: j evs)
  case 0
  then have "j = k" by simp
  with 0 have "[j..<n] = k # [Suc k..<n]" by (simp add: upt_conv_Cons)
  with 0 \<open>j = k\<close> show ?case by (simp add: retry_events_def)
next
  case (Suc d)
  then have jk: "j < k" and jn: "j < n" by simp_all
  have step: "[j..<n] = j # [Suc j..<n]" using jn by (simp add: upt_conv_Cons)
  have ft: "attempt_body (net j) = Fall_through" using Suc.prems jk by simp
  have sl: "int j < ra - 1" using jk Suc.prems by simp
  have IH: "call_api_attempts net ra rd [Suc j..<n] evs' =
              (Some c, evs' @ retry_events rd (Suc j) k @ [Post k])" for evs'
    using Suc.hyps(1)[of "Suc j" evs'] Suc.hyps(2) Suc.prems jk by simp
  have ev: "retry_events rd j k =
              [Post j, Sleep (calculate_backoff_delay j rd 300)] @ retry_events rd (Suc j) k"
    using jk by (simp add: retry_events_def upt_conv_Cons)
  show ?case
    by (simp add: step ft sl IH ev)
qed

lemma call_api_attempts_some:
  "fst (call_api_attempts net ra rd idxs evs) = Some c \<Longrightarrow>
     \<exists>k \<in> set idxs. attempt_body (net k) = Return_content c"
proof (induction idxs arbitrary: evs)
  case Nil
  then show ?case by simp
next
  case (Cons attempt rest)
  show ?case
  proof (cases "attempt_body (net attempt)")
    case (Return_content c')
    with Cons.prems show ?thesis by simp
  next
    case Return_none
    with Cons.prems show ?thesis by simp
  next
    case Fall_through
    with Cons.prems obtain evs' where "fst (call_api_attempts net ra rd rest evs') = Some c"
      by (auto split: if_splits)
    from Cons.IH [OF this] show ?thesis by auto
  qed
qed

lemma call_api_returns_content:
  assumes "int k < retry_attempts"
    and "\<forall>i<k. attempt_body (net i) = Fall_through"
    and "attempt_body (net k) = Return_content c"
  shows "call_api clock net retry_attempts retry_delay =
           ((Some c, clock (retry_events retry_delay 0 k @ [Post k]) - clock []),
            retry_events retry_delay 0 k @ [Post k])"
proof -
  have "k < nat retry_attempts" using assms(1) by simp
  moreover have "int (nat retry_attempts) \<le> retry_attempts" using assms(1) by simp
  ultimately have "call_api_attempts net retry_attempts retry_delay [0..<nat retry_attempts] []
      = (Some c, [] @ retry_events retry_delay 0 k @ [Post k])"
    using assms(2,3) by (intro call_api_attempts_success) simp_all
  then show ?thesis by (simp add: call_api_def)
qed

lemma call_api_content_from_attempt:
  assumes "fst (fst (call_api clock net retry_attempts retry_delay)) = Some c"
  shows "\<exists>k < nat retry_attempts. attempt_body (net k) = Return_content c"
proof -
  have "fst (call_api_attempts net retry_attempts retry_delay [0..<nat retry_attempts] []) = Some c"
    using assms
    by (cases "call_api_attempts net retry_attempts retry_delay [0..<nat retry_attempts] []")
       (simp add: call_api_def)
  from call_api_attempts_some [OF this] show ?thesis by auto
qed

text \<open>
  Claim C4, as stated, fails: \<open>if content:\<close> tests the truth value of the content, so
  a response with status 200 whose content is the number 5, which is no string, is a
  success and \<open>call_api\<close> returns it.
\<close>

theorem call_api_non_string_content_succeeds:
  "extract_content (PDict [(''choices'', PList [PDict [(''message'', PDict [(''content'', PInt 5)])]])])
     = Inr (PInt 5)
   \<and> attempt_body (Response \<lparr>status_code = 200,
         json_body = Some (PDict [(''choices'', PList [PDict [(''message'', PDict [(''content'', PInt 5)])]])]),
         body_text = ''''\<rparr>) = Return_content (PInt 5)
   \<and> call_api (\<lambda>evs. of_nat (length evs))
        (\<lambda>i. Response \<lparr>status_code = 200,
         json_body = Some (PDict [(''choices'', PList [PDict [(''message'', PDict [(''content'', PInt 5)])]])]),
         body_text = ''''\<rparr>) 3 5
       = ((Some (PInt 5), 1), [Post 0])"
  by code_simp

text \<open>
  Claim C4, amended. An attempt is a success exactly when the response has status 200 and
  its JSON carries a truthy content value at the first choice's message (for a string:
  a non-empty string); when the attempt is reached, \<open>call_api\<close> returns that content at
  once, and \<open>call_api\<close> returns content only from such an attempt. A response with status
  200 and no such content, whether the body is not JSON, the path to the content raises,
  or the content is missing or empty, is neither a success nor a terminal failure: like a
  timeout it falls through to the backoff code, so the loop goes on with the remaining
  attempts after recording the call and, if attempts remain, the backoff sleep. No
  exception leaves the attempt.
\<close>

theorem call_api_success_condition:
  "(attempt_body outcome = Return_content c) =
     (\<exists>r j. outcome = Response r \<and> status_code r = 200 \<and> json_body r = Some j
         \<and> extract_content j = Inr c \<and> truthy c)
   \<and> truthy (PStr s) = (s \<noteq> [])
   \<and> (int k < retry_attempts \<and> (\<forall>i<k. attempt_body (net i) = Fall_through)
        \<and> attempt_body (net k) = Return_content c' \<longrightarrow>
          call_api clock net retry_attempts retry_delay =
            ((Some c', clock (retry_events retry_delay 0 k @ [Post k]) - clock []),
             retry_events retry_delay 0 k @ [Post k]))
   \<and> (fst (fst (call_api clock net retry_attempts retry_delay)) = Some c'' \<longrightarrow>
          (\<exists>k < nat retry_attempts. attempt_body (net k) = Return_content c''))
   \<and> (status_code r = 200
        \<and> \<not> (\<exists>j c. json_body r = Some j \<and> extract_content j = Inr c \<and> truthy c)
        \<and> net attempt = Response r \<longrightarrow>
          attempt_body (Response r) = Fall_through
        \<and> attempt_body (Response r) = attempt_body (Timeout m)
        \<and> call_api_attempts net ra rd (attempt # rest) evs =
            call_api_attempts net ra rd rest
              (evs @ [Post attempt] @
                (if int attempt < ra - 1 then [Sleep (calculate_backoff_delay attempt rd 300)] else [])))"
proof -
  have a: "(attempt_body outcome = Return_content c) =
     (\<exists>r j. outcome = Response r \<and> status_code r = 200 \<and> json_body r = Some j
         \<and> extract_content j = Inr c \<and> truthy c)"
    by (rule attempt_body_success_iff)
  have b: "attempt_body (Response r) = Fall_through"
    if "status_code r = 200"
      and "\<not> (\<exists>j c. json_body r = Some j \<and> extract_content j = Inr c \<and> truthy c)"
    using that by (rule attempt_body_200_otherwise)
  have c: "call_api clock net retry_attempts retry_delay =
            ((Some c', clock (retry_events retry_delay 0 k @ [Post k]) - clock []),
             retry_events retry_delay 0 k @ [Post k])"
    if "int k < retry_attempts" and "\<forall>i<k. attempt_body (net i) = Fall_through"
      and "attempt_body (net k) = Return_content c'"
    using that by (rule call_api_returns_content)
  have d: "\<exists>k < nat retry_attempts. attempt_body (net k) = Return_content c''"
    if "fst (fst (call_api clock net retry_attempts retry_delay)) = Some c''"
    using that by (rule call_api_content_from_attempt)
  have e: "call_api_attempts net ra rd (attempt # rest) evs =
            call_api_attempts net ra rd rest
              (evs @ [Post attempt] @
                (if int attempt < ra - 1 then [Sleep (calculate_backoff_delay attempt rd 300)] else []))"
    if "attempt_body (net attempt) = Fall_through"
    using that by (rule call_api_attempts_fall_through)
  show ?thesis
    using a b c d e by (simp del: call_api_attempts.simps)
qed

theorem call_api_success_condition_witness:
  "attempt_body (Response \<lparr>status_code = 200,
       json_body = Some (PDict [(''choices'', PList [PDict [(''message'', PDict [(''content'', PStr ''hi'')])]])]),
       body_text = ''''\<rparr>) = Return_content (PStr ''hi'')
   \<and> attempt_body (Response \<lparr>status_code = 429, json_body = None, body_text = ''''\<rparr>) = Fall_through
   \<and> call_api (\<lambda>evs. of_nat (length evs))
        (\<lambda>i. if i = 0 then Response \<lparr>status_code = 429, json_body = None, body_text = ''''\<rparr>
              else Response \<lparr>status_code = 200,
                json_body = Some (PDict [(''choices'', PList [PDict [(''message'', PDict [(''content'', PStr ''hi'')])]])]),
                body_text = ''''\<rparr>) 3 5
       = ((Some (PStr ''hi''), 3), [Post 0, Sleep 5, Post 1])
   \<and> extract_content (PDict [(''choices'', PList [])]) = Inl (Exn ''IndexError'' ''list index out of range'')
   \<and> attempt_body (Response \<lparr>status_code = 200, json_body = Some (PDict [(''choices'', PList [])]),
       body_text = ''''\<rparr>) = Fall_through
   \<and> call_api_attempts
        (\<lambda>i. Response \<lparr>status_code = 200, json_body = Some (PDict [(''choices'', PList [])]), body_text = ''''\<rparr>)
        3 5 [0, 1, 2] []
      = (None, [Post 0, Sleep 5, Post 1, Sleep 10, Post 2])"
proof -
  let ?ok = "\<lparr>status_code = 200,
       json_body = Some (PDict [(''choices'', PList [PDict [(''message'', PDict [(''content'', PStr ''hi'')])]])]),
       body_text = ''''\<rparr>"
  let ?q = "\<lparr>status_code = 429, json_body = None, body_text = ''''\<rparr>"
  let ?r = "\<lparr>status_code = 200, json_body = Some (PDict [(''choices'', PList [])]), body_text = ''''\<rparr>"
  let ?net = "\<lambda>i::nat. if i = 0 then Response ?q else Response ?ok"
  let ?clock = "\<lambda>evs :: net_event list. (of_nat (length evs) :: rat)"
  have x: "extract_content (PDict [(''choices'', PList [])]) = Inl (Exn ''IndexError'' ''list index out of range'')"
    by (simp add: extract_content_def and_then_def)
  have ok: "attempt_body (Response ?ok) = Return_content (PStr ''hi'')"
    by (simp add: attempt_body_def try_body_def extract_content_def and_then_def)
  have q: "attempt_body (Response ?q) = Fall_through"
    by (simp add: attempt_body_def try_body_def)
  have reach: "int 1 < 3 \<and> (\<forall>i<1. attempt_body (?net i) = Fall_through)
        \<and> attempt_body (?net 1) = Return_content (PStr ''hi'')"
    using ok q by simp
  have got: "call_api ?clock ?net 3 5 =
            ((Some (PStr ''hi''), ?clock (retry_events 5 0 1 @ [Post 1]) - ?clock []),
             retry_events 5 0 1 @ [Post 1])"
    by (rule call_api_success_condition
            [where k = 1 and net = ?net and c' = "PStr ''hi''" and retry_attempts = 3
               and retry_delay = 5 and clock = ?clock,
             THEN conjunct2, THEN conjunct2, THEN conjunct1, THEN mp, OF reach])
  have second: "call_api ?clock ?net 3 5 = ((Some (PStr ''hi''), 3), [Post 0, Sleep 5, Post 1])"
    unfolding got by (simp add: retry_events_def calculate_backoff_delay_def)
  have h: "status_code ?r = 200
        \<and> \<not> (\<exists>j c. json_body ?r = Some j \<and> extract_content j = Inr c \<and> truthy c)
        \<and> (\<lambda>i. Response ?r) (0::nat) = Response ?r"
    by (simp add: x)
  note malformed = call_api_success_condition
            [where r = ?r and net = "\<lambda>i. Response ?r" and attempt = 0 and ra = 3 and rd = 5
               and rest = "[1, 2]" and evs = "[]",
             THEN conjunct2, THEN conjunct2, THEN conjunct2, THEN conjunct2, THEN mp, OF h]
  have ft: "attempt_body (Response ?r) = Fall_through"
    by (rule malformed [THEN conjunct1])
  have step: "call_api_attempts (\<lambda>i. Response ?r) 3 5 (0 # [1, 2]) [] =
          call_api_attempts (\<lambda>i. Response ?r) 3 5 [1, 2]
            ([] @ [Post 0] @ (if int 0 < 3 - 1 then [Sleep (calculate_backoff_delay 0 5 300)] else []))"
    by (rule malformed [THEN conjunct2, THEN conjunct2])
  have third: "call_api_attempts (\<lambda>i. Response ?r) 3 5 [0, 1, 2] [] =
        (None, [Post 0, Sleep 5, Post 1, Sleep 10, Post 2])"
    unfolding step by (simp add: ft calculate_backoff_delay_def)
  from ok q second x ft third show ?thesis by (intro conjI)
qed

text \<open>
  Claim C6. If attempt \<open>k\<close> of \<open>call_api\<close> is reached (the earlier attempts fell through
  and \<open>k\<close> is below \<open>retry_attempts\<close>) and receives a response whose status is in
  [400, 500) and is not 429, then \<open>call_api\<close> returns \<open>None\<close> with the elapsed time, and
  its last effect is the network call of attempt \<open>k\<close>: no sleep follows it and no
  further attempt is made. On the first attempt (\<open>k = 0\<close>) the only effect is one
  network call.
\<close>

theorem call_api_client_error_stops:
  assumes "net k = Response r"
    and "400 \<le> status_code r" and "status_code r < 500" and "status_code r \<noteq> 429"
    and "int k < retry_attempts"
    and "\<forall>i<k. attempt_body (net i) = Fall_through"
  shows "call_api clock net retry_attempts retry_delay =
           ((None, clock (retry_events retry_delay 0 k @ [Post k]) - clock []),
            retry_events retry_delay 0 k @ [Post k])
         \<and> (k = 0 \<longrightarrow> snd (call_api clock net retry_attempts retry_delay) = [Post 0])"
proof -
  have "attempt_body (net k) = Return_none"
    using assms(1-4) by (simp add: attempt_body_terminal)
  moreover have "k < nat retry_attempts" using assms(5) by simp
  moreover have "int (nat retry_attempts) \<le> retry_attempts" using assms(5) by simp
  ultimately have "call_api_attempts net retry_attempts retry_delay [0..<nat retry_attempts] []
      = (None, [] @ retry_events retry_delay 0 k @ [Post k])"
    using assms(6) by (intro call_api_attempts_terminal) simp_all
  then have main: "call_api clock net retry_attempts retry_delay =
           ((None, clock (retry_events retry_delay 0 k @ [Post k]) - clock []),
            retry_events retry_delay 0 k @ [Post k])"
    by (simp add: call_api_def)
  then show ?thesis by (simp add: retry_events_def)
qed

theorem call_api_client_error_stops_witness:
  "call_api (\<lambda>evs. of_nat (length evs))
      (\<lambda>i. Response \<lparr>status_code = 404, json_body = None, body_text = ''not found''\<rparr>) 3 5
     = ((None, 1), [Post 0])
   \<and> attempt_body (Response \<lparr>status_code = 429, json_body = None, body_text = ''''\<rparr>) = Fall_through
   \<and> call_api (\<lambda>evs. of_nat (length evs))
      (\<lambda>i. if i = 0 then Response \<lparr>status_code = 429, json_body = None, body_text = ''''\<rparr>
            else Response \<lparr>status_code = 404, json_body = None, body_text = ''not found''\<rparr>) 3 5
     = ((None, 3), [Post 0, Sleep 5, Post 1])"
proof -
  let ?r = "\<lparr>status_code = 404, json_body = None, body_text = ''not found''\<rparr>"
  let ?q = "\<lparr>status_code = 429, json_body = None, body_text = ''''\<rparr>"
  let ?clock = "\<lambda>evs :: net_event list. (of_nat (length evs) :: rat)"
  have q: "attempt_body (Response ?q) = Fall_through"
    by (simp add: attempt_body_def try_body_def)
  have first: "call_api ?clock (\<lambda>i. Response ?r) 3 5 = ((None, 1), [Post 0])"
    using call_api_client_error_stops [of "\<lambda>i. Response ?r" 0 ?r 3 ?clock 5]
    by (simp add: retry_events_def)
  have second: "call_api ?clock (\<lambda>i. if i = 0 then Response ?q else Response ?r) 3 5
      = ((None, 3), [Post 0, Sleep 5, Post 1])"
    using call_api_client_error_stops [of "\<lambda>i. if i = 0 then Response ?q else Response ?r" 1 ?r 3 ?clock 5] q
    by (simp add: retry_events_def calculate_backoff_delay_def)
  show ?thesis using first q second by simp
qed

section \<open>Properties of validate\_parsed\_data\<close>

text \<open>Rounding to the nearest double, ties to the even significand, at a few values.\<close>

lemma to_double_examples:
  "to_double (15 / 100) = 5404319552844595 / 2 ^ 55"
  "to_double (1 / 4) = 1 / 4"
  "to_double 9007199254740993 = 9007199254740992"
  "to_double 9007199254740995 = 9007199254740996"
  by code_simp+

text \<open>
  The score for the section \<open>competition_basic_info\<close> with only \<open>name\<close> filled: the sum of
  the four weights is the double 0.6000000000000001, and 0.15 divided by it is the double
  0.24999999999999994, which is \<open>2 ^ -54\<close> below one quarter.
\<close>

lemma validate_name_true:
  "validate_parsed_data (PDict [(''competition_basic_info'', PDict [(''name'', PBool True)])])
     = Inr (1 / 4 - 1 / 2 ^ 54)"
  by code_simp

lemma validate_name_truthy:
  "truthy v \<Longrightarrow>
     validate_parsed_data (PDict [(''competition_basic_info'', PDict [(''name'', v)])])
       = validate_parsed_data (PDict [(''competition_basic_info'', PDict [(''name'', PBool True)])])"
  by (simp add: validate_parsed_data_def weights_def section_body_def field_body_def and_then_def)

text \<open>
  Claim C1, as stated, fails: with only \<open>competition_basic_info\<close> present and only its
  field \<open>name\<close> filled, the score is not 1. The denominator adds the weight of every
  weighted field of a section that is present, filled or not.
\<close>

theorem confidence_name_only_not_one:
  "validate_parsed_data (PDict [(''competition_basic_info'', PDict [(''name'', PStr ''X'')])]) \<noteq> Inr 1"
proof -
  have "validate_parsed_data (PDict [(''competition_basic_info'', PDict [(''name'', PStr ''X'')])])
          = Inr (1 / 4 - 1 / 2 ^ 54)"
    using validate_name_truthy [of "PStr ''X''"] validate_name_true by simp
  then show ?thesis by simp
qed

text \<open>
  Claim C1, amended. With only \<open>competition_basic_info\<close> present, holding only the field
  \<open>name\<close> with a non-empty (truthy) value, the score is the float 0.24999999999999994
  (\<open>1/4 - 2 ^ -54\<close>): the weight 0.15 of \<open>name\<close> divided by the float sum
  0.6000000000000001 of the weights of the four weighted fields of the section. The
  empty dictionary scores 0.
\<close>

theorem confidence_name_only:
  "(truthy v \<longrightarrow>
      validate_parsed_data (PDict [(''competition_basic_info'', PDict [(''name'', v)])])
        = Inr (1 / 4 - 1 / 2 ^ 54))
   \<and> validate_parsed_data (PDict []) = Inr 0"
proof -
  have "validate_parsed_data (PDict []) = Inr 0"
    by (simp add: validate_parsed_data_def weights_def section_body_def and_then_def)
  then show ?thesis
    using validate_name_truthy [of v] validate_name_true by simp
qed

theorem confidence_name_only_witness:
  "truthy (PStr ''X'')
   \<and> validate_parsed_data (PDict [(''competition_basic_info'', PDict [(''name'', PStr ''X'')])])
       = Inr (1 / 4 - 1 / 2 ^ 54)
   \<and> validate_parsed_data (PDict []) = Inr 0"
  using confidence_name_only [of "PStr ''X''"] by simp

section \<open>Properties of save\_parsed\_info and \_dict\_to\_parsed\_info\<close>

text \<open>
  Claim C2, as stated, fails: \<open>_dict_to_parsed_info\<close> never reads the \<open>metadata\<close>
  section, so a record with a confidence score does not come back equal.
\<close>

theorem roundtrip_loses_metadata:
  "dict_to_parsed_info (save_parsed_info_data
     \<lparr> name = PStr ''X'', organizer = PNone, partners = PNone, application_status = PNone,
       deadline = PNone, target_description = PNone, eligibility_criteria = PNone,
       stage_preference = PNone, industry_focus = PNone, innovation_type = PNone,
       prize_fund = PNone, benefits = PNone, support_offered = PNone,
       explicit_criteria = PNone, implied_preferences = PNone,
       confidence_score = PFloat (1 / 4), parsing_timestamp = PStr ''2025-01-01T00:00:00'',
       raw_content_length = PInt 600 \<rparr>)
   \<noteq> Inr
     \<lparr> name = PStr ''X'', organizer = PNone, partners = PNone, application_status = PNone,
       deadline = PNone, target_description = PNone, eligibility_criteria = PNone,
       stage_preference = PNone, industry_focus = PNone, innovation_type = PNone,
       prize_fund = PNone, benefits = PNone, support_offered = PNone,
       explicit_criteria = PNone, implied_preferences = PNone,
       confidence_score = PFloat (1 / 4), parsing_timestamp = PStr ''2025-01-01T00:00:00'',
       raw_content_length = PInt 600 \<rparr>"
  by (simp add: dict_to_parsed_info_def save_parsed_info_data_def and_then_def)

text \<open>
  Claim C2, amended. Serialising a record to the nested layout of \<open>save_parsed_info\<close> and
  converting that dictionary back with \<open>_dict_to_parsed_info\<close> never raises and yields a
  record equal to the original on the fifteen fields of the five sections; the three
  metadata fields (\<open>confidence_score\<close>, \<open>parsing_timestamp\<close>, \<open>raw_content_length\<close>) come back
  as \<open>None\<close>.
\<close>

theorem roundtrip_sections:
  "dict_to_parsed_info (save_parsed_info_data p) =
     Inr (p\<lparr>confidence_score := PNone, parsing_timestamp := PNone, raw_content_length := PNone\<rparr>)"
  by (simp add: dict_to_parsed_info_def save_parsed_info_data_def and_then_def)

section \<open>Properties of \_is\_content\_sufficient\<close>

text \<open>\<open>str_contains\<close> decides the occurrence of a contiguous substring.\<close>

lemma str_contains_iff: "str_contains kw s \<longleftrightarrow> (\<exists>p t. s = p @ kw @ t)"
proof (induction s)
  case Nil
  then show ?case by auto
next
  case (Cons c cs)
  show ?case
  proof
    assume "str_contains kw (c # cs)"
    then consider "prefix kw (c # cs)" | "str_contains kw cs" by auto
    then show "\<exists>p t. c # cs = p @ kw @ t"
    proof cases
      case 1
      then obtain t where "c # cs = kw @ t" by (auto simp: prefix_def)
      then have "c # cs = [] @ kw @ t" by simp
      then show ?thesis by blast
    next
      case 2
      with Cons.IH obtain p t where "cs = p @ kw @ t" by blast
      then have "c # cs = (c # p) @ kw @ t" by simp
      then show ?thesis by blast
    qed
  next
    assume "\<exists>p t. c # cs = p @ kw @ t"
    then obtain p t where eq: "c # cs = p @ kw @ t" by blast
    show "str_contains kw (c # cs)"
    proof (cases p)
      case Nil
      with eq have "prefix kw (c # cs)" by (simp add: prefix_def)
      then show ?thesis by simp
    next
      case (Cons a p')
      with eq have "cs = p' @ kw @ t" by simp
      with Cons.IH have "str_contains kw cs" by blast
      then show ?thesis by simp
    qed
  qed
qed

lemma strip_Nil [simp]: "strip [] = []"
  by (simp add: strip_def)

lemma distinct_keywords: "distinct competition_keywords"
  by (simp add: competition_keywords_def)

text \<open>The keywords are distinct, so the count of matches is the number of keywords that occur.\<close>

lemma keyword_matches_card:
  "length (filter (\<lambda>keyword. str_contains keyword t) competition_keywords)
     = card {kw \<in> set competition_keywords. \<exists>p q. t = p @ kw @ q}"
proof -
  let ?ms = "filter (\<lambda>keyword. str_contains keyword t) competition_keywords"
  have "{kw \<in> set competition_keywords. \<exists>p q. t = p @ kw @ q} = set ?ms"
    by (auto simp: str_contains_iff)
  moreover have "distinct ?ms"
    using distinct_keywords by simp
  then have "card (set ?ms) = length ?ms" by (rule distinct_card)
  ultimately show ?thesis by (simp only:)
qed

lemma sufficient_iff:
  "is_content_sufficient c \<longleftrightarrow>
     (\<exists>s. c = Some s \<and> 500 \<le> length (strip s)
        \<and> 3 \<le> card {kw \<in> set competition_keywords. \<exists>p t. lower s = p @ kw @ t})"
proof (cases c)
  case None
  then show ?thesis by (simp add: is_content_sufficient_def)
next
  case (Some s)
  show ?thesis
  proof (cases "s = []")
    case True
    with Some show ?thesis by (simp add: is_content_sufficient_def)
  next
    case False
    with Some show ?thesis
      by (simp add: is_content_sufficient_def keyword_matches_card not_less)
  qed
qed

lemma three_keywords_suffice:
  assumes "500 \<le> length (strip s)"
    and "\<exists>p t. lower s = p @ ''deadline'' @ t"
    and "\<exists>p t. lower s = p @ ''apply'' @ t"
    and "\<exists>p t. lower s = p @ ''prize'' @ t"
  shows "is_content_sufficient (Some s)"
proof -
  let ?K = "{kw \<in> set competition_keywords. \<exists>p t. lower s = p @ kw @ t}"
  have sub: "{''deadline'', ''apply'', ''prize''} \<subseteq> ?K"
    using assms(2-4) by (simp add: competition_keywords_def)
  have "finite ?K" by simp
  then have "card {''deadline'', ''apply'', ''prize''} \<le> card ?K"
    using sub by (rule card_mono)
  then have "3 \<le> card ?K" by simp
  with assms(1) show ?thesis by (simp add: sufficient_iff)
qed

lemma no_keyword_insufficient:
  assumes "\<forall>kw \<in> set competition_keywords. \<not> (\<exists>p t. lower s = p @ kw @ t)"
  shows "\<not> is_content_sufficient (Some s)"
proof -
  have "{kw \<in> set competition_keywords. \<exists>p t. lower s = p @ kw @ t} = {}"
    using assms by blast
  then have zero: "card {kw \<in> set competition_keywords. \<exists>p t. lower s = p @ kw @ t} = 0"
    by (simp only: card.empty)
  show ?thesis
  proof
    assume "is_content_sufficient (Some s)"
    then have "3 \<le> card {kw \<in> set competition_keywords. \<exists>p t. lower s = p @ kw @ t}"
      unfolding sufficient_iff by blast
    with zero show False by linarith
  qed
qed

lemma is_space_blank [simp]: "is_space (CHR '' '')"
  by (simp add: is_space_def)

lemma lower_append: "lower (a @ b) = lower a @ lower b"
  by (simp add: lower_def)

lemma lower_replicate_x: "lower (replicate n (CHR ''x'')) = replicate n (CHR ''x'')"
  by (simp add: lower_def lower_char_def)

lemma strip_no_blank_ends:
  assumes "s \<noteq> []" and "\<not> is_space (hd s)" and "\<not> is_space (last s)"
  shows "strip s = s"
proof -
  have "dropWhile is_space s = s"
    using assms(2) by (simp add: dropWhile_eq_self_iff)
  moreover have "dropWhile is_space (rev s) = rev s"
    using assms(1,3) by (simp add: dropWhile_eq_self_iff hd_rev)
  ultimately show ?thesis by (simp add: strip_def)
qed

text \<open>
  Claim C7, as stated, fails: the length that is compared with 500 is the length after
  \<open>strip()\<close>. A string of 600 characters that holds the three keywords and ends in
  blanks is not sufficient.
\<close>

theorem padded_content_insufficient:
  "length (''deadline apply prize'' @ replicate 580 (CHR '' '')) = 600
   \<and> str_contains ''deadline'' (lower (''deadline apply prize'' @ replicate 580 (CHR '' '')))
   \<and> str_contains ''apply'' (lower (''deadline apply prize'' @ replicate 580 (CHR '' '')))
   \<and> str_contains ''prize'' (lower (''deadline apply prize'' @ replicate 580 (CHR '' '')))
   \<and> \<not> is_content_sufficient (Some (''deadline apply prize'' @ replicate 580 (CHR '' '')))"
proof -
  let ?s = "''deadline apply prize'' @ replicate 580 (CHR '' '')"
  have d: "\<not> is_space (CHR ''d'')" and e: "\<not> is_space (CHR ''e'')"
    by (simp_all add: is_space_def)
  have "dropWhile is_space (replicate 580 (CHR '' '') @ ''ezirp ylppa enildaed'') = ''ezirp ylppa enildaed''"
    by (subst dropWhile_append2) (simp_all add: e)
  then have "strip ?s = ''deadline apply prize''"
    by (simp add: strip_def d)
  then have "\<not> is_content_sufficient (Some ?s)"
    by (simp add: is_content_sufficient_def)
  moreover have "lower ?s = ?s"
    by (simp add: lower_def lower_char_def)
  moreover have "str_contains ''deadline'' ?s" "str_contains ''apply'' ?s" "str_contains ''prize'' ?s"
    by simp_all
  ultimately show ?thesis by simp
qed

text \<open>
  Claim C7, amended. \<open>_is_content_sufficient(content)\<close> is true if and only if the content
  is present, its length after stripping leading and trailing whitespace is at least 500,
  and at least 3 keywords of the fixed list occur in the lower-cased content. In
  particular every string whose stripped length is at least 500 and that contains
  "deadline", "apply" and "prize" in any letter case is sufficient, and every string that
  contains no keyword of the list is not sufficient, whatever its length.
\<close>

theorem content_sufficient_iff:
  "(is_content_sufficient c \<longleftrightarrow>
      (\<exists>s. c = Some s \<and> 500 \<le> length (strip s)
         \<and> 3 \<le> card {kw \<in> set competition_keywords. \<exists>p t. lower s = p @ kw @ t}))
   \<and> (500 \<le> length (strip s)
        \<and> (\<exists>p t. lower s = p @ ''deadline'' @ t)
        \<and> (\<exists>p t. lower s = p @ ''apply'' @ t)
        \<and> (\<exists>p t. lower s = p @ ''prize'' @ t) \<longrightarrow> is_content_sufficient (Some s))
   \<and> ((\<forall>kw \<in> set competition_keywords. \<not> (\<exists>p t. lower s' = p @ kw @ t))
        \<longrightarrow> \<not> is_content_sufficient (Some s'))"
  using sufficient_iff [of c] three_keywords_suffice [of s] no_keyword_insufficient [of s']
  by blast

theorem content_sufficient_iff_witness:
  "length (''Deadline APPLY prIze'' @ replicate 580 (CHR ''x'')) = 600
   \<and> strip (''Deadline APPLY prIze'' @ replicate 580 (CHR ''x''))
        = ''Deadline APPLY prIze'' @ replicate 580 (CHR ''x'')
   \<and> lower (''Deadline APPLY prIze'' @ replicate 580 (CHR ''x''))
        = ''deadline apply prize'' @ replicate 580 (CHR ''x'')
   \<and> is_content_sufficient (Some (''Deadline APPLY prIze'' @ replicate 580 (CHR ''x'')))
   \<and> length (replicate 600 (CHR ''x'')) = 600
   \<and> \<not> is_content_sufficient (Some (replicate 600 (CHR ''x'')))"
proof -
  let ?s = "''Deadline APPLY prIze'' @ replicate 580 (CHR ''x'')"
  let ?t = "replicate 600 (CHR ''x'')"
  have low0: "lower ''Deadline APPLY prIze'' = ''deadline apply prize''"
    by code_simp
  have low: "lower ?s = ''deadline apply prize'' @ replicate 580 (CHR ''x'')"
    by (simp only: lower_append lower_replicate_x low0)
  have nsp: "\<not> is_space (CHR ''D'')" "\<not> is_space (CHR ''x'')"
    by (simp_all add: is_space_def)
  have st: "strip ?s = ?s"
    by (rule strip_no_blank_ends) (simp_all add: nsp)
  have len: "500 \<le> length (strip ?s)"
    unfolding st by simp
  have k1: "\<exists>p t. lower ?s = p @ ''deadline'' @ t"
    unfolding low str_contains_iff [symmetric] by simp
  have k2: "\<exists>p t. lower ?s = p @ ''apply'' @ t"
    unfolding low str_contains_iff [symmetric] by simp
  have k3: "\<exists>p t. lower ?s = p @ ''prize'' @ t"
    unfolding low str_contains_iff [symmetric] by simp
  have none: "\<forall>kw \<in> set competition_keywords. \<not> (\<exists>p t. lower ?t = p @ kw @ t)"
  proof (intro ballI notI)
    fix kw assume kw: "kw \<in> set competition_keywords"
    assume "\<exists>p t. lower ?t = p @ kw @ t"
    then obtain p t where "?t = p @ kw @ t"
      by (auto simp only: lower_replicate_x)
    then have "set kw \<subseteq> set ?t"
      by (metis Un_upper1 Un_upper2 set_append subset_trans)
    then have "set kw \<subseteq> {CHR ''x''}" by simp
    with kw show False by (auto simp: competition_keywords_def)
  qed
  have suf: "is_content_sufficient (Some ?s)"
    using content_sufficient_iff [of _ ?s] len k1 k2 k3 by blast
  have ins: "\<not> is_content_sufficient (Some ?t)"
    using content_sufficient_iff [of _ _ ?t] none by blast
  have l1: "length ?s = 600" and l2: "length ?t = 600"
    by simp_all
  from l1 st low suf l2 ins show ?thesis by blast
qed

section \<open>Properties of the scraper\<close>

text \<open>The stages only add results to the store and effects to the trace.\<close>

lemma alloc_facts:
  "alloc r w = (a, w') \<Longrightarrow> a = length (heap w) \<and> heap w' = heap w @ [r] \<and> trace w' = trace w"
  by (auto simp: alloc_def)

lemma static_attempts_heap:
  "static_attempts env mr u idxs w = (res, w') \<Longrightarrow>
     (res = None \<and> heap w' = heap w) \<or> (\<exists>x. res = Some (length (heap w)) \<and> heap w' = heap w @ [x])"
proof (induction idxs arbitrary: w)
  case Nil
  then show ?case by simp
next
  case (Cons attempt rest)
  let ?w1 = "w\<lparr>trace := trace w @ (if attempt > 0 then [Random_delay] else []) @ [Get attempt]\<rparr>"
  show ?case
  proof (cases "static_fetch env u attempt")
    case (RequestException e)
    show ?thesis
    proof (cases "int attempt = mr - 1")
      case True
      with Cons.prems RequestException show ?thesis
        by (auto simp: Let_def alloc_def)
    next
      case False
      with Cons.prems RequestException
      have "static_attempts env mr u rest ?w1 = (res, w')" by (simp add: Let_def)
      from Cons.IH [OF this] show ?thesis by simp
    qed
  next
    case (StaticError e)
    with Cons.prems show ?thesis by (auto simp: Let_def alloc_def)
  next
    case (StaticPage p)
    with Cons.prems show ?thesis by (auto simp: Let_def alloc_def)
  qed
qed

lemma static_attempts_trace:
  "static_attempts env mr u idxs w = (res, w') \<Longrightarrow>
     \<exists>evs. trace w' = trace w @ evs \<and> Browse \<notin> set evs"
proof (induction idxs arbitrary: w)
  case Nil
  then show ?case by simp
next
  case (Cons attempt rest)
  let ?new = "(if attempt > 0 then [Random_delay] else []) @ [Get attempt]"
  let ?w1 = "w\<lparr>trace := trace w @ ?new\<rparr>"
  have here: "trace ?w1 = trace w @ ?new \<and> Browse \<notin> set ?new" by simp
  show ?case
  proof (cases "static_fetch env u attempt")
    case (RequestException e)
    show ?thesis
    proof (cases "int attempt = mr - 1")
      case True
      with Cons.prems RequestException have "trace w' = trace w @ ?new"
        by (auto simp: Let_def alloc_def)
      with here show ?thesis by blast
    next
      case False
      with Cons.prems RequestException
      have "static_attempts env mr u rest ?w1 = (res, w')" by (simp add: Let_def)
      from Cons.IH [OF this] obtain evs where "trace w' = trace ?w1 @ evs" "Browse \<notin> set evs"
        by blast
      then have "trace w' = trace w @ (?new @ evs) \<and> Browse \<notin> set (?new @ evs)" by simp
      then show ?thesis by blast
    qed
  next
    case (StaticError e)
    with Cons.prems have "trace w' = trace w @ ?new" by (auto simp: Let_def alloc_def)
    with here show ?thesis by blast
  next
    case (StaticPage p)
    with Cons.prems have "trace w' = trace w @ ?new" by (auto simp: Let_def alloc_def)
    with here show ?thesis by blast
  qed
qed

lemma static_attempts_returns:
  assumes "j < n" and "int n = mr"
  shows "fst (static_attempts env mr u [j..<n] w) \<noteq> None"
  using assms
proof (induction "n - j" arbitrary: j w)
  case 0
  then show ?case by simp
next
  case (Suc d)
  then have step: "[j..<n] = j # [Suc j..<n]" by (simp add: upt_conv_Cons)
  let ?w1 = "w\<lparr>trace := trace w @ (if j > 0 then [Random_delay] else []) @ [Get j]\<rparr>"
  show ?case
  proof (cases "static_fetch env u j")
    case (RequestException e)
    show ?thesis
    proof (cases "int j = mr - 1")
      case True
      with RequestException show ?thesis by (simp add: step Let_def alloc_def)
    next
      case False
      with Suc.prems have "Suc j < n" by linarith
      moreover from Suc.hyps(2) have "d = n - Suc j" by simp
      ultimately have "fst (static_attempts env mr u [Suc j..<n] ?w1) \<noteq> None"
        using Suc.hyps(1) Suc.prems(2) by blast
      with RequestException False show ?thesis by (simp add: step Let_def)
    qed
  next
    case (StaticError e)
    then show ?thesis by (simp add: step Let_def alloc_def)
  next
    case (StaticPage p)
    then show ?thesis by (simp add: step Let_def alloc_def)
  qed
qed

lemma scrape_static_content_returns:
  assumes "0 < max_retries"
  shows "\<exists>a w1. scrape_static_content env max_retries u w = (Some a, w1)"
proof -
  have "fst (static_attempts env max_retries u [0..<nat max_retries] w) \<noteq> None"
    using assms by (intro static_attempts_returns) simp_all
  then show ?thesis
    by (cases "static_attempts env max_retries u [0..<nat max_retries] w")
       (auto simp: scrape_static_content_def)
qed

lemma scrape_static_content_none:
  assumes "max_retries \<le> 0"
  shows "scrape_static_content env max_retries u w = (None, w)"
  using assms by (simp add: scrape_static_content_def)

lemma scrape_static_content_heap:
  "scrape_static_content env mr u w = (Some a, w1) \<Longrightarrow>
     a = length (heap w) \<and> (\<exists>x. heap w1 = heap w @ [x])"
  using static_attempts_heap [of env mr u "[0..<nat mr]" w "Some a" w1]
  by (auto simp: scrape_static_content_def)

lemma scrape_static_content_trace:
  "scrape_static_content env mr u w = (res, w1) \<Longrightarrow>
     \<exists>evs. trace w1 = trace w @ evs \<and> Browse \<notin> set evs"
  unfolding scrape_static_content_def by (rule static_attempts_trace)

lemma scrape_dynamic_content_facts:
  "scrape_dynamic_content env u w = (d, w2) \<Longrightarrow>
     d = length (heap w) \<and> (\<exists>x. heap w2 = heap w @ [x]) \<and> trace w2 = trace w @ [Browse]"
  by (auto simp: scrape_dynamic_content_def Let_def alloc_def split: dynamic_outcome.splits)

text \<open>The three ways \<open>scrape_url\<close> ends once both stages have produced a result.\<close>

lemma scrape_url_stages:
  assumes valid: "urlparse env u = Inr (scheme, netloc)" "scheme \<noteq> []" "netloc \<noteq> []"
    and static: "scrape_static_content env max_retries u w = (Some a, w1)"
    and dynamic: "scrape_dynamic_content env u w1 = (d, w2)"
  shows "scrape_url env max_retries u False w =
           (if success (heap w1 ! a) \<and> is_content_sufficient (content (heap w1 ! a)) then (Inr a, w1)
            else if success (heap w2 ! d) then (Inr d, w2)
            else (Inr a,
                  w2\<lparr>heap := (heap w2)[a := (heap w1 ! a)\<lparr>error_message := Some
                        (''Both static and dynamic scraping failed. Static: ''
                          @ str_opt (error_message (heap w1 ! a))
                          @ '', Dynamic: ''
                          @ str_opt (error_message (heap w2 ! d)))\<rparr>]\<rparr>))
         \<and> (\<exists>evs. trace w1 = trace w @ evs \<and> Browse \<notin> set evs)
         \<and> trace w2 = trace w1 @ [Browse]"
proof -
  from scrape_static_content_heap [OF static] obtain x where
    a: "a = length (heap w)" and h1: "heap w1 = heap w @ [x]" by blast
  from scrape_dynamic_content_facts [OF dynamic] obtain y where
    d: "d = length (heap w1)" and h2: "heap w2 = heap w1 @ [y]" and t2: "trace w2 = trace w1 @ [Browse]"
    by blast
  have same: "heap w2 ! a = heap w1 ! a"
    using a h1 h2 by (simp add: nth_append)
  have "scrape_url env max_retries u False w =
           (if success (heap w1 ! a) \<and> is_content_sufficient (content (heap w1 ! a)) then (Inr a, w1)
            else if success (heap w2 ! d) then (Inr d, w2)
            else (Inr a,
                  w2\<lparr>heap := (heap w2)[a := (heap w1 ! a)\<lparr>error_message := Some
                        (''Both static and dynamic scraping failed. Static: ''
                          @ str_opt (error_message (heap w1 ! a))
                          @ '', Dynamic: ''
                          @ str_opt (error_message (heap w2 ! d)))\<rparr>]\<rparr>))"
    using valid static dynamic by (simp add: scrape_url_def same)
  then show ?thesis
    using scrape_static_content_trace [OF static] t2 by blast
qed

text \<open>On every path \<open>scrape_url\<close> leaves the results that existed before the call as they were.\<close>

lemma scrape_url_extends_heap:
  assumes "scrape_url env max_retries u force_dynamic w = (res, w')"
  shows "\<exists>new. heap w' = heap w @ new"
proof (cases "urlparse env u")
  case (Inl e)
  with assms show ?thesis by (simp add: scrape_url_def)
next
  case (Inr sn)
  obtain scheme netloc where sn: "sn = (scheme, netloc)" by (cases sn)
  show ?thesis
  proof (cases "scheme \<noteq> [] \<and> netloc \<noteq> []")
    case False
    with assms Inr sn show ?thesis by (auto simp: scrape_url_def alloc_def)
  next
    case valid: True
    show ?thesis
    proof (cases force_dynamic)
      case True
      obtain d w2 where dyn: "scrape_dynamic_content env u w = (d, w2)"
        by (cases "scrape_dynamic_content env u w")
      from scrape_dynamic_content_facts [OF dyn] assms Inr sn valid True dyn
      show ?thesis by (auto simp: scrape_url_def)
    next
      case False
      obtain sr w1 where st: "scrape_static_content env max_retries u w = (sr, w1)"
        by (cases "scrape_static_content env max_retries u w")
      show ?thesis
      proof (cases sr)
        case None
        with st have "heap w1 = heap w"
          using static_attempts_heap [of env max_retries u "[0..<nat max_retries]" w sr w1]
          by (simp add: scrape_static_content_def)
        with assms Inr sn valid False st None show ?thesis by (simp add: scrape_url_def)
      next
        case (Some a)
        obtain d w2 where dyn: "scrape_dynamic_content env u w1 = (d, w2)"
          by (cases "scrape_dynamic_content env u w1")
        from st Some have st': "scrape_static_content env max_retries u w = (Some a, w1)" by simp
        from scrape_static_content_heap [OF st'] obtain x where
          a: "a = length (heap w)" and h1: "heap w1 = heap w @ [x]" by blast
        from scrape_dynamic_content_facts [OF dyn] obtain y where
          h2: "heap w2 = heap w1 @ [y]" by blast
        have upd: "(heap w2)[a := z] = heap w @ [z, y]" for z
          using a h1 h2 by simp
        from assms Inr sn valid False st' dyn h1 h2 upd show ?thesis
          by (auto simp: scrape_url_def split: if_splits)
      qed
    qed
  qed
qed

lemma scrape_url_no_retries_raises:
  assumes "urlparse env u = Inr (scheme, netloc)" and "scheme \<noteq> []" and "netloc \<noteq> []"
    and "max_retries \<le> 0"
  shows "scrape_url env max_retries u False w = (Inl (no_attribute PNone ''success''), w)"
  using assms by (simp add: scrape_url_def scrape_static_content_none)

text \<open>
  The orchestration of a scraper that makes at least one attempt (\<open>max_retries\<close>
  positive), for a URL with a scheme and a host and \<open>force_dynamic\<close> false: the static
  fetch runs first, returns a result and never touches the browser. If that result
  succeeded and its content is sufficient it is returned, in the world the static fetch
  left: no dynamic fetch is attempted. Otherwise the dynamic fetch runs next; its result
  is returned if it succeeded; if not, the static result is returned with its error
  message set to the text that joins the error messages of both stages.
\<close>

lemma scrape_url_orchestration:
  assumes "urlparse env u = Inr (scheme, netloc)" and "scheme \<noteq> []" and "netloc \<noteq> []"
    and "0 < max_retries"
  shows "\<exists>a w1 d w2.
           scrape_static_content env max_retries u w = (Some a, w1)
         \<and> scrape_dynamic_content env u w1 = (d, w2)
         \<and> (\<exists>evs. trace w1 = trace w @ evs \<and> Browse \<notin> set evs)
         \<and> trace w2 = trace w1 @ [Browse]
         \<and> scrape_url env max_retries u False w =
             (if success (heap w1 ! a) \<and> is_content_sufficient (content (heap w1 ! a)) then (Inr a, w1)
              else if success (heap w2 ! d) then (Inr d, w2)
              else (Inr a,
                    w2\<lparr>heap := (heap w2)[a := (heap w1 ! a)\<lparr>error_message := Some
                          (''Both static and dynamic scraping failed. Static: ''
                            @ str_opt (error_message (heap w1 ! a))
                            @ '', Dynamic: ''
                            @ str_opt (error_message (heap w2 ! d)))\<rparr>]\<rparr>))"
proof -
  from scrape_static_content_returns [OF assms(4)] obtain a w1 where
    static: "scrape_static_content env max_retries u w = (Some a, w1)" by blast
  obtain d w2 where dynamic: "scrape_dynamic_content env u w1 = (d, w2)"
    by (cases "scrape_dynamic_content env u w1")
  from scrape_url_stages [OF assms(1-3) static dynamic] static dynamic show ?thesis by blast
qed

lemma scrape_url_orchestration_example:
  "urlparse failing_env ''https://example.com'' = Inr (''https'', ''example.com'')
   \<and> (\<exists>a w1 d w2.
           scrape_static_content failing_env 1 ''https://example.com'' empty_world = (Some a, w1)
         \<and> scrape_dynamic_content failing_env ''https://example.com'' w1 = (d, w2)
         \<and> (\<exists>evs. trace w1 = trace empty_world @ evs \<and> Browse \<notin> set evs)
         \<and> trace w2 = trace w1 @ [Browse]
         \<and> scrape_url failing_env 1 ''https://example.com'' False empty_world =
             (if success (heap w1 ! a) \<and> is_content_sufficient (content (heap w1 ! a)) then (Inr a, w1)
              else if success (heap w2 ! d) then (Inr d, w2)
              else (Inr a,
                    w2\<lparr>heap := (heap w2)[a := (heap w1 ! a)\<lparr>error_message := Some
                          (''Both static and dynamic scraping failed. Static: ''
                            @ str_opt (error_message (heap w1 ! a))
                            @ '', Dynamic: ''
                            @ str_opt (error_message (heap w2 ! d)))\<rparr>]\<rparr>)))
   \<and> fst (scrape_url failing_env 1 ''https://example.com'' False empty_world) = Inr 0
   \<and> trace (snd (scrape_url failing_env 1 ''https://example.com'' False empty_world)) = [Get 0, Browse]
   \<and> error_message (heap (snd (scrape_url failing_env 1 ''https://example.com'' False empty_world)) ! 0)
        = Some ''Both static and dynamic scraping failed. Static: Static scraping failed after 1 attempts: boom, Dynamic: Page load timeout for https://example.com''"
proof -
  have up: "urlparse failing_env ''https://example.com'' = Inr (''https'', ''example.com'')"
    by (simp add: failing_env_def)
  have ne: "''https'' \<noteq> []" "''example.com'' \<noteq> []" and pos: "(0::int) < 1"
    by simp_all
  note ex = scrape_url_orchestration [OF up ne pos, of empty_world]
  have r1: "fst (scrape_url failing_env 1 ''https://example.com'' False empty_world) = Inr 0"
    by code_simp
  have r2: "trace (snd (scrape_url failing_env 1 ''https://example.com'' False empty_world)) = [Get 0, Browse]"
    by code_simp
  have r3: "error_message (heap (snd (scrape_url failing_env 1 ''https://example.com'' False empty_world)) ! 0)
        = Some ''Both static and dynamic scraping failed. Static: Static scraping failed after 1 attempts: boom, Dynamic: Page load timeout for https://example.com''"
    by code_simp
  from up ex r1 r2 r3 show ?thesis by (intro conjI)
qed

text \<open>
  Claim C3 does not hold of the code when \<open>max_retries\<close> is 0. For a URL with a scheme
  and a host and \<open>force_dynamic\<close> false the static fetch then makes no request and yields
  no result, \<open>scrape_url\<close> attempts no dynamic fetch and returns no result: an
  \<open>AttributeError\<close> leaves it, with no effect on the network or the browser and no
  result in the store. The claim says that the dynamic fetch is attempted whenever the
  static result is not a sufficient success.
\<close>

theorem scrape_url_zero_retries_no_fallback:
  "urlparse failing_env ''https://example.com'' = Inr (''https'', ''example.com'')
   \<and> fst (scrape_static_content failing_env 0 ''https://example.com'' empty_world) = None
   \<and> trace (snd (scrape_url failing_env 0 ''https://example.com'' False empty_world)) = []
   \<and> heap (snd (scrape_url failing_env 0 ''https://example.com'' False empty_world)) = []
   \<and> (\<forall>a. fst (scrape_url failing_env 0 ''https://example.com'' False empty_world) \<noteq> Inr a)"
proof -
  have up: "urlparse failing_env ''https://example.com'' = Inr (''https'', ''example.com'')"
    by (simp add: failing_env_def)
  have run: "scrape_url failing_env 0 ''https://example.com'' False empty_world
               = (Inl (no_attribute PNone ''success''), empty_world)"
    by (rule scrape_url_no_retries_raises [OF up]) simp_all
  have none: "fst (scrape_static_content failing_env 0 ''https://example.com'' empty_world) = None"
    by (simp add: scrape_static_content_none)
  have t: "trace (snd (scrape_url failing_env 0 ''https://example.com'' False empty_world)) = []"
    unfolding run by (simp add: empty_world_def)
  have h: "heap (snd (scrape_url failing_env 0 ''https://example.com'' False empty_world)) = []"
    unfolding run by (simp add: empty_world_def)
  have n: "\<forall>a. fst (scrape_url failing_env 0 ''https://example.com'' False empty_world) \<noteq> Inr a"
    unfolding run by simp
  from up none t h n show ?thesis by (intro conjI)
qed

text \<open>
  Claim C8, as stated, fails: when both stages fail, \<open>scrape_url\<close> assigns to
  \<open>static_result.error_message\<close>. The object that the static fetch produced at address 0
  holds another error message after \<open>scrape_url\<close> than right after its construction.
\<close>

theorem static_result_overwritten:
  "fst (scrape_static_content failing_env 1 ''https://example.com'' empty_world) = Some 0
   \<and> fst (scrape_url failing_env 1 ''https://example.com'' False empty_world) = Inr 0
   \<and> error_message (heap (snd (scrape_static_content failing_env 1 ''https://example.com'' empty_world)) ! 0)
        = Some ''Static scraping failed after 1 attempts: boom''
   \<and> error_message (heap (snd (scrape_url failing_env 1 ''https://example.com'' False empty_world)) ! 0)
        = Some ''Both static and dynamic scraping failed. Static: Static scraping failed after 1 attempts: boom, Dynamic: Page load timeout for https://example.com''
   \<and> heap (snd (scrape_url failing_env 1 ''https://example.com'' False empty_world)) ! 0
        \<noteq> heap (snd (scrape_static_content failing_env 1 ''https://example.com'' empty_world)) ! 0"
  by code_simp

text \<open>
  Claim C8, amended. After its construction a \<open>ScrapingResult\<close> keeps every field except
  \<open>error_message\<close>. on every path \<open>scrape_url\<close> leaves the results that existed before
  the call untouched; the static result it produced differs from its constructed value at most in
  \<open>error_message\<close>, and differs only when it was not returned as sufficient and the
  dynamic fetch failed; the dynamic result is never modified; and the orchestrator's
  \<open>execute_scraping\<close> leaves the store as \<open>scrape_url\<close> left it.
\<close>

theorem results_change_only_error_message:
  assumes "urlparse env u = Inr (scheme, netloc)" and "scheme \<noteq> []" and "netloc \<noteq> []"
    and static: "scrape_static_content env max_retries u w = (Some a, w1)"
    and dynamic: "scrape_dynamic_content env u w1 = (d, w2)"
    and run: "scrape_url env max_retries u False w = (res, w')"
  shows "(\<forall>force_dynamic r0 w0. scrape_url env max_retries u force_dynamic w = (r0, w0) \<longrightarrow>
            (\<exists>new. heap w0 = heap w @ new))
       \<and> (heap w' ! a)\<lparr>error_message := e\<rparr> = (heap w1 ! a)\<lparr>error_message := e\<rparr>
       \<and> (heap w' ! a \<noteq> heap w1 ! a \<longrightarrow>
            \<not> (success (heap w1 ! a) \<and> is_content_sufficient (content (heap w1 ! a)))
            \<and> \<not> success (heap w2 ! d))
       \<and> (\<not> (success (heap w1 ! a) \<and> is_content_sufficient (content (heap w1 ! a))) \<longrightarrow>
            heap w' ! d = heap w2 ! d)
       \<and> snd (execute_scraping env max_retries u w) = w'"
proof -
  from scrape_static_content_heap [OF static] obtain x where
    a: "a = length (heap w)" and h1: "heap w1 = heap w @ [x]" by blast
  from scrape_dynamic_content_facts [OF dynamic] obtain y where
    d: "d = length (heap w1)" and h2: "heap w2 = heap w1 @ [y]" by blast
  have x: "heap w1 ! a = x" and x2: "heap w2 ! a = x" and y: "heap w2 ! d = y"
    using a d h1 h2 by (simp_all add: nth_append)
  have upd: "(heap w2)[a := z] = heap w @ [z, y]" for z
    using a h1 h2 by simp
  have nth_a: "(heap w @ [z, y]) ! a = z" and nth_d: "(heap w @ [z, y]) ! d = y" for z
    using a d h1 by (simp_all add: nth_append)
  note url = scrape_url_stages [OF assms(1-3) static dynamic, THEN conjunct1]
  have A: "\<forall>force_dynamic r0 w0. scrape_url env max_retries u force_dynamic w = (r0, w0) \<longrightarrow>
            (\<exists>new. heap w0 = heap w @ new)"
    by (blast intro: scrape_url_extends_heap)
  have B: "(heap w' ! a)\<lparr>error_message := e\<rparr> = (heap w1 ! a)\<lparr>error_message := e\<rparr>"
    using run url x x2 upd nth_a by (auto split: if_splits)
  have C: "heap w' ! a \<noteq> heap w1 ! a \<longrightarrow>
            \<not> (success (heap w1 ! a) \<and> is_content_sufficient (content (heap w1 ! a)))
            \<and> \<not> success (heap w2 ! d)"
    using run url x x2 by (auto split: if_splits)
  have D: "\<not> (success (heap w1 ! a) \<and> is_content_sufficient (content (heap w1 ! a))) \<longrightarrow>
            heap w' ! d = heap w2 ! d"
    using run url y upd nth_d by (auto split: if_splits)
  have E: "snd (execute_scraping env max_retries u w) = w'"
    using run by (simp add: execute_scraping_def Let_def split: sum.splits)
  from A B C D E show ?thesis by blast
qed

theorem results_change_only_error_message_witness:
  "urlparse failing_env ''https://example.com'' = Inr (''https'', ''example.com'')
   \<and> scrape_static_content failing_env 1 ''https://example.com'' empty_world
       = (Some 0, snd (scrape_static_content failing_env 1 ''https://example.com'' empty_world))
   \<and> (\<exists>new. heap (snd (scrape_url failing_env 1 ''https://example.com'' True empty_world))
                 = heap empty_world @ new)
   \<and> (heap (snd (scrape_url failing_env 1 ''https://example.com'' False empty_world)) ! 0)
         \<lparr>error_message := None\<rparr>
       = (heap (snd (scrape_static_content failing_env 1 ''https://example.com'' empty_world)) ! 0)
         \<lparr>error_message := None\<rparr>
   \<and> heap (snd (scrape_url failing_env 1 ''https://example.com'' False empty_world)) ! 1
       = heap (snd (scrape_dynamic_content failing_env ''https://example.com''
                     (snd (scrape_static_content failing_env 1 ''https://example.com'' empty_world)))) ! 1
   \<and> snd (execute_scraping failing_env 1 ''https://example.com'' empty_world)
       = snd (scrape_url failing_env 1 ''https://example.com'' False empty_world)"
proof -
  let ?u = "''https://example.com''"
  let ?w1 = "snd (scrape_static_content failing_env 1 ?u empty_world)"
  let ?w2 = "snd (scrape_dynamic_content failing_env ?u ?w1)"
  let ?w' = "snd (scrape_url failing_env 1 ?u False empty_world)"
  have up: "urlparse failing_env ?u = Inr (''https'', ''example.com'')"
    by (simp add: failing_env_def)
  have ne: "''https'' \<noteq> []" "''example.com'' \<noteq> []"
    by simp_all
  have static: "scrape_static_content failing_env 1 ?u empty_world = (Some 0, ?w1)"
    by code_simp
  have dynamic: "scrape_dynamic_content failing_env ?u ?w1 = (1, ?w2)"
    by code_simp
  have run: "scrape_url failing_env 1 ?u False empty_world = (Inr 0, ?w')"
    by code_simp
  have failed: "\<not> (success (heap ?w1 ! 0) \<and> is_content_sufficient (content (heap ?w1 ! 0)))"
    by code_simp
  note facts = results_change_only_error_message [OF up ne static dynamic run, of None]
  from facts have b: "(heap ?w' ! 0)\<lparr>error_message := None\<rparr> = (heap ?w1 ! 0)\<lparr>error_message := None\<rparr>"
    by blast
  from facts failed have d: "heap ?w' ! 1 = heap ?w2 ! 1"
    by blast
  from facts have e: "snd (execute_scraping failing_env 1 ?u empty_world) = ?w'"
    by blast
  have "scrape_url failing_env 1 ?u True empty_world
          = (fst (scrape_url failing_env 1 ?u True empty_world),
             snd (scrape_url failing_env 1 ?u True empty_world))"
    by simp
  with facts have f: "\<exists>new. heap (snd (scrape_url failing_env 1 ?u True empty_world))
                 = heap empty_world @ new"
    by blast
  from up static f b d e show ?thesis by (intro conjI)
qed

text \<open>
  Claim C9 does not hold of the code. With \<open>max_retries = 0\<close> the loop of
  \<open>scrape_static_content\<close> has no iteration, the function ends without a \<open>return\<close> and
  yields \<open>None\<close>; \<open>scrape_url\<close> then reads \<open>static_result.success\<close> and an
  \<open>AttributeError\<close> leaves it.
\<close>

theorem scrape_url_zero_retries_raises:
  "scrape_static_content failing_env 0 ''https://example.com'' empty_world = (None, empty_world)
   \<and> scrape_url failing_env 0 ''https://example.com'' False empty_world =
       (Inl (Exn ''AttributeError''
              (quoted ''NoneType'' @ '' object has no attribute '' @ quoted ''success'')),
        empty_world)"
  by code_simp

section \<open>Properties of the application generation stage\<close>

text \<open>When every attempt falls through, \<open>call_api\<close> returns \<open>None\<close> and \<open>complete\<close> raises.\<close>

lemma call_api_attempts_exhausted:
  "\<forall>i \<in> set idxs. attempt_body (net i) = Fall_through \<Longrightarrow>
     fst (call_api_attempts net ra rd idxs evs) = None"
  by (induction idxs arbitrary: evs) simp_all

lemma complete_exhausted:
  assumes "\<forall>i < nat ra. attempt_body (net i) = Fall_through"
  shows "fst (complete clock net ra rd) =
           Inl (Exn ''Exception'' (''Monica API call failed after '' @ str_int ra @ '' attempts''))"
proof -
  have "fst (call_api_attempts net ra rd [0..<nat ra] []) = None"
    using assms by (intro call_api_attempts_exhausted) simp
  then show ?thesis
    by (cases "call_api_attempts net ra rd [0..<nat ra] []")
       (simp add: complete_def call_api_def)
qed

lemma fallback_embeds_error:
  "\<exists>p t. fallback_document err n ts = p @ err @ t"
  unfolding fallback_document_def by (metis append.assoc)

text \<open>
  The stage reads \<open>config['paths']['input_base']\<close> while loading the reference documents:
  without it the stage returns \<open>False\<close> before any call of the LLM.
\<close>

lemma generation_needs_input_base:
  assumes "py_getitem cfg ''paths'' = Inr paths" and "py_getitem paths ''input_base'' = Inl e"
  shows "execute_application_generation cfg env cname = ((False, []), [])"
proof -
  have "load_reference_docs cfg env cname = Inl e"
    using assms by (simp add: load_reference_docs_def competition_file_def and_then_def)
  then have "\<exists>e'. final_prompt cfg env cname = Inl e'"
    by (cases "load_prompt_template cfg env") (simp_all add: final_prompt_def and_then_def)
  then show ?thesis
    by (auto simp: execute_application_generation_def)
qed

text \<open>
  Claim C10. Whenever the LLM call inside \<open>call_llm_for_application\<close> raises (as
  \<open>complete\<close> does when all three attempts are used up: \<open>complete_exhausted\<close>), the
  exception is caught and the fallback document, which embeds the error message, is
  returned in place of the answer. \<open>execute_application_generation\<close> then saves that
  document exactly as it would save a generated application: when the output file can be
  written it writes the file and returns \<open>True\<close>, although the LLM generated nothing. The
  prompt is the one the stage built from the configuration, the template and the
  reference documents (\<open>final_prompt\<close>).
\<close>

theorem llm_failure_reported_as_success:
  assumes "py_get cfg ''llm_settings'' (PDict []) = Inr llm_config"
    and "py_get llm_config ''base_url'' (PStr ''https://openapi.monica.im/v1'') = Inr base_url"
    and "complete (llm_clock env) (llm_net env) 3 5 = (Inl e, evs)"
  shows "call_llm_for_application cfg env prompt =
           (PStr (fallback_document (exn_str e) (length prompt) (wf_now env 1)), evs)
       \<and> (\<exists>p t. fallback_document (exn_str e) (length prompt) (wf_now env 1) = p @ exn_str e @ t)
       \<and> (final_prompt cfg env cname = Inr prompt \<longrightarrow>
            execute_application_generation cfg env cname =
              (save_output cfg env cname
                 (PStr (fallback_document (exn_str e) (length prompt) (wf_now env 1))), evs))
       \<and> (final_prompt cfg env cname = Inr prompt
            \<and> py_getitem cfg ''paths'' = Inr paths
            \<and> py_getitem paths ''output_base'' = Inr (PStr output_base)
            \<and> open_for_write env [output_base, cname, cname @ ''_application.md''] = None \<longrightarrow>
            execute_application_generation cfg env cname =
              ((True, [([output_base, cname, cname @ ''_application.md''],
                        fallback_document (exn_str e) (length prompt) (wf_now env 1))]), evs))"
proof -
  have tb: "llm_try_block cfg env = (Inl e, evs)"
    using assms by (simp add: llm_try_block_def)
  then have call: "call_llm_for_application cfg env prompt =
           (PStr (fallback_document (exn_str e) (length prompt) (wf_now env 1)), evs)"
    by (simp add: call_llm_for_application_def)
  have exec: "execute_application_generation cfg env cname =
              (save_output cfg env cname
                 (PStr (fallback_document (exn_str e) (length prompt) (wf_now env 1))), evs)"
    if "final_prompt cfg env cname = Inr prompt"
    using that call by (simp add: execute_application_generation_def)
  have saved: "save_output cfg env cname (PStr doc) =
                 (True, [([output_base, cname, cname @ ''_application.md''], doc)])"
    if "py_getitem cfg ''paths'' = Inr paths"
      and "py_getitem paths ''output_base'' = Inr (PStr output_base)"
      and "open_for_write env [output_base, cname, cname @ ''_application.md''] = None"
    for doc
    using that by (simp add: save_output_def and_then_def as_path_def)
  show ?thesis
    using call exec saved fallback_embeds_error [of "exn_str e" "length prompt" "wf_now env 1"]
    by simp
qed

theorem llm_failure_reported_as_success_witness:
  "complete (llm_clock timeout_env) (llm_net timeout_env) 3 5 =
     (Inl (Exn ''Exception'' ''Monica API call failed after 3 attempts''),
      [Post 0, Sleep 5, Post 1, Sleep 10, Post 2])
   \<and> final_prompt example_config timeout_env ''X''
       = Inr ''Apply to X\<newline>## scraped_content\<newline>Prize\<newline>''
   \<and> execute_application_generation example_config timeout_env ''X'' =
       ((True, [([''output'', ''X'', ''X_application.md''],
                 fallback_document ''Monica API call failed after 3 attempts'' 36 ''T1'')]),
        [Post 0, Sleep 5, Post 1, Sleep 10, Post 2])"
proof -
  let ?e = "Exn ''Exception'' ''Monica API call failed after 3 attempts''"
  let ?evs = "[Post 0, Sleep 5, Post 1, Sleep 10, Post 2]"
  let ?prompt = "''Apply to X\<newline>## scraped_content\<newline>Prize\<newline>''"
  have s1: "py_get example_config ''llm_settings'' (PDict []) = Inr (PDict [(''model'', PStr ''gpt-4.1'')])"
    by (simp add: example_config_def)
  have s2: "py_get (PDict [(''model'', PStr ''gpt-4.1'')]) ''base_url'' (PStr ''https://openapi.monica.im/v1'')
              = Inr (PStr ''https://openapi.monica.im/v1'')"
    by simp
  have c: "complete (llm_clock timeout_env) (llm_net timeout_env) 3 5 = (Inl ?e, ?evs)"
    by code_simp
  have fp: "final_prompt example_config timeout_env ''X'' = Inr ?prompt"
    by code_simp
  have p1: "py_getitem example_config ''paths'' =
              Inr (PDict [(''input_base'', PStr ''input''), (''output_base'', PStr ''output''),
                          (''prompt_template'', PStr ''prompt.md'')])"
    by (simp add: example_config_def)
  have p2: "py_getitem (PDict [(''input_base'', PStr ''input''), (''output_base'', PStr ''output''),
                               (''prompt_template'', PStr ''prompt.md'')])
              ''output_base'' = Inr (PStr ''output'')"
    by simp
  have ow: "open_for_write timeout_env [''output'', ''X'', ''X'' @ ''_application.md''] = None"
    by (simp add: timeout_env_def)
  have now1: "wf_now timeout_env 1 = ''T1''"
    by (simp add: timeout_env_def)
  from llm_failure_reported_as_success
         [where cname = "''X''" and prompt = ?prompt and output_base = "''output''", OF s1 s2 c]
    fp p1 p2 ow
  have "execute_application_generation example_config timeout_env ''X'' =
       ((True, [([''output'', ''X'', ''X'' @ ''_application.md''],
                 fallback_document (exn_str ?e) (length ?prompt) (wf_now timeout_env 1))]), ?evs)"
    by blast
  moreover have len: "length ?prompt = 36"
    by simp
  have "fallback_document (exn_str ?e) (length ?prompt) (wf_now timeout_env 1)
          = fallback_document ''Monica API call failed after 3 attempts'' 36 ''T1''"
    by (simp only: now1 len exn.sel)
  moreover have "''X'' @ ''_application.md'' = ''X_application.md''"
    by simp
  ultimately have "execute_application_generation example_config timeout_env ''X'' =
       ((True, [([''output'', ''X'', ''X_application.md''],
                 fallback_document ''Monica API call failed after 3 attempts'' 36 ''T1'')]), ?evs)"
    by (simp only:)
  with c fp show ?thesis by (intro conjI)
qed

end
